theory Spec2Isabelle
  imports Main "HOL-Library.Word"
begin

section \<open>Data model of \<^verbatim>\<open>mouse_capture.cpp\<close>\<close>

text \<open>
  \<^verbatim>\<open>struct imps2_data\<close>: eight one-bit fields followed by three \<^verbatim>\<open>signed char\<close>
  offsets. The one-bit fields are booleans, the offsets are 8-bit words read as two's
  complement through \<open>sint\<close>. The source's fields \<^verbatim>\<open>x\<close>, \<^verbatim>\<open>y\<close>, \<^verbatim>\<open>z\<close> are called
  \<open>data_x\<close>, \<open>data_y\<close>, \<open>data_z\<close> (as in \<^verbatim>\<open>data.x\<close>), so that the one-letter names stay
  free for variables.
\<close>

record imps2_data =
  btn_left :: bool
  btn_right :: bool
  btn_middle :: bool
  NONE :: bool
  x_sign :: bool
  y_sign :: bool
  x_overflow :: bool
  y_overflow :: bool
  data_x :: "8 word"
  data_y :: "8 word"
  data_z :: "8 word"

text \<open>\<^verbatim>\<open>sizeof(imps2_data)\<close> under \<^verbatim>\<open>#pragma pack(1)\<close>: one byte of flags and three offsets.\<close>

definition sizeof_data :: int where
  "sizeof_data = 4"

text \<open>
  \<^verbatim>\<open>long\<close>, and with it \<^verbatim>\<open>time_t\<close> and \<^verbatim>\<open>suseconds_t\<close>, as on 64-bit Linux (LP64): a 64-bit
  word, read as two's complement through \<open>sint\<close>. Sums, differences and products wrap
  around, as the machine's do.
\<close>

type_synonym long = "64 word"

text \<open>\<^verbatim>\<open>struct timeval\<close>.\<close>

record timeval =
  tv_sec :: long
  tv_usec :: long

text \<open>The anonymous enum of \<^verbatim>\<open>ButtonProcess\<close>.\<close>

datatype btn = BTN_LEFT | BTN_RIGHT | BTN_NULL

text \<open>The private members of \<^verbatim>\<open>class ButtonProcess\<close>.\<close>

record ButtonProcess =
  m_btnPre :: btn
  m_tv_cur :: timeval
  m_bTimer :: bool

text \<open>A failed \<^verbatim>\<open>assert\<close> aborts the process.\<close>

datatype error = AssertionFailed

section \<open>The click classifier\<close>

text \<open>The constructor: no pending button, timer off, time zero.\<close>

definition ButtonProcess_init :: ButtonProcess where
  "ButtonProcess_init =
     \<lparr>m_btnPre = BTN_NULL, m_tv_cur = \<lparr>tv_sec = 0, tv_usec = 0\<rparr>, m_bTimer = False\<rparr>"

text \<open>
  \<^verbatim>\<open>gettimeofday\<close> is the only source of time. Every operation that reads the clock takes
  the value read as its argument \<open>now\<close>.
\<close>

definition EnableTimer :: "timeval \<Rightarrow> ButtonProcess \<Rightarrow> ButtonProcess" where
  "EnableTimer now s = s\<lparr>m_bTimer := True, m_tv_cur := now\<rparr>"

definition DisableTimer :: "ButtonProcess \<Rightarrow> ButtonProcess" where
  "DisableTimer s = s\<lparr>m_bTimer := False\<rparr>"

definition IsTimerEnable :: "ButtonProcess \<Rightarrow> bool" where
  "IsTimerEnable s = m_bTimer s"

text \<open>
  Standard output is the list of lines written so far: each
  \<^verbatim>\<open>printf("c\n"); fflush(stdout);\<close> of the source appends the line \<open>''c''\<close>.
  \<^verbatim>\<open>Button\<close> returns its \<^verbatim>\<open>bool\<close>, the updated object and the lines it printed.
\<close>

definition Button :: "btn \<Rightarrow> timeval \<Rightarrow> ButtonProcess \<Rightarrow> error + (bool \<times> ButtonProcess \<times> string list)" where
  "Button type now s =
     (if \<not> (type = BTN_LEFT \<or> type = BTN_RIGHT) then Inl AssertionFailed
      else if m_btnPre s = BTN_NULL then
        Inr (True, EnableTimer now (s\<lparr>m_btnPre := type\<rparr>), [])
      else if m_btnPre s \<noteq> type then
        Inr (False, DisableTimer (s\<lparr>m_btnPre := BTN_NULL\<rparr>), [''q''])
      else
        Inr (True, DisableTimer (s\<lparr>m_btnPre := BTN_NULL\<rparr>),
             [if m_btnPre s = BTN_LEFT then ''z'' else ''x'']))"

text \<open>C's integer division truncates towards zero.\<close>

definition c_div :: "int \<Rightarrow> int \<Rightarrow> int" where
  "c_div a b = (if (a < 0) = (b < 0) then \<bar>a\<bar> div \<bar>b\<bar> else - (\<bar>a\<bar> div \<bar>b\<bar>))"

text \<open>The quotient \<^verbatim>\<open>a/b\<close> of two \<^verbatim>\<open>long\<close> values.\<close>

definition long_div :: "long \<Rightarrow> long \<Rightarrow> long" where
  "long_div a b = word_of_int (c_div (sint a) (sint b))"

text \<open>
  The millisecond reading \<^verbatim>\<open>tv_sec*1000 + tv_usec/1000\<close> of a \<^verbatim>\<open>timeval\<close>, computed in
  \<^verbatim>\<open>long\<close>.
\<close>

definition tv_ms :: "timeval \<Rightarrow> long" where
  "tv_ms tv = tv_sec tv * 1000 + long_div (tv_usec tv) 1000"

text \<open>
  \<^verbatim>\<open>Timer\<close>, with the clock value \<open>tv\<close> that its \<^verbatim>\<open>gettimeofday\<close> reads. The interval
  \<^verbatim>\<open>tv_interval_ms\<close> is a \<^verbatim>\<open>long\<close>, compared as a signed number. The line printed is chosen
  from \<open>m_btnPre\<close> before that field is reset.
\<close>

definition Timer :: "timeval \<Rightarrow> ButtonProcess \<Rightarrow> error + (ButtonProcess \<times> string list)" where
  "Timer tv s =
     (if IsTimerEnable s then
        (let tv_interval_ms = tv_ms tv - tv_ms (m_tv_cur s) in
         if sint tv_interval_ms \<ge> 300 then
           (if \<not> (m_btnPre s \<noteq> BTN_NULL) then Inl AssertionFailed
            else Inr ((DisableTimer s)\<lparr>m_btnPre := BTN_NULL\<rparr>,
                      [if m_btnPre s = BTN_LEFT then ''<'' else ''>'']))
         else Inr (s, []))
      else Inr (s, []))"

text \<open>
  A sequence of calls on one classifier object, from the outside: the two public
  operations that change it, each with the clock value it reads. The run stops at the
  first failed assertion; the lines printed are collected in order.
\<close>

datatype call = Call_Button btn timeval | Call_Timer timeval

fun do_call :: "call \<Rightarrow> ButtonProcess \<Rightarrow> error + (ButtonProcess \<times> string list)" where
  "do_call (Call_Button b now) s =
     (case Button b now s of Inl e \<Rightarrow> Inl e | Inr (ok, s', ls) \<Rightarrow> Inr (s', ls))"
| "do_call (Call_Timer now) s = Timer now s"

fun run_calls :: "call list \<Rightarrow> ButtonProcess \<Rightarrow> error + (ButtonProcess \<times> string list)" where
  "run_calls [] s = Inr (s, [])"
| "run_calls (c # cs) s =
     (case do_call c s of
        Inl e \<Rightarrow> Inl e
      | Inr (s', ls) \<Rightarrow>
          (case run_calls cs s' of Inl e \<Rightarrow> Inl e | Inr (s'', ls') \<Rightarrow> Inr (s'', ls @ ls')))"

section \<open>The event loop of \<^verbatim>\<open>main\<close>\<close>

text \<open>
  What the loop owns: the classifier, the lines written to standard output, and whether
  the descriptor \<^verbatim>\<open>mice_fd\<close> is open.
\<close>

record world =
  btnProcess :: ButtonProcess
  stdout :: "string list"
  mice_fd_open :: bool

text \<open>
  How a piece of \<^verbatim>\<open>main\<close> ends: it goes on (\<open>Continue\<close>), \<^verbatim>\<open>main\<close> returns a status, an
  assertion aborts the process, or the recorded answers of the operating system are used
  up while the loop is still running (\<open>Running\<close>).
\<close>

datatype control = Continue | Return int | Aborted | Running

text \<open>
  The two call sites \<^verbatim>\<open>if (!btnProcess.Button(...)) { close(mice_fd); return 0; }\<close>.
\<close>

definition main_button :: "btn \<Rightarrow> timeval \<Rightarrow> world \<Rightarrow> control \<times> world" where
  "main_button b now w =
     (case Button b now (btnProcess w) of
        Inl e \<Rightarrow> (Aborted, w)
      | Inr (ok, s', ls) \<Rightarrow>
          (let w' = w\<lparr>btnProcess := s', stdout := stdout w @ ls\<rparr> in
           if \<not> ok then (Return 0, w'\<lparr>mice_fd_open := False\<rparr>) else (Continue, w')))"

text \<open>The body of \<^verbatim>\<open>if (nLen == sizeof(data))\<close>: what one full-size report does.\<close>

definition main_dispatch :: "imps2_data \<Rightarrow> timeval \<Rightarrow> world \<Rightarrow> control \<times> world" where
  "main_dispatch data now w =
     (if data_z data = 0 \<and> data_x data = 0 \<and> data_y data = 0 then
        (if btn_left data then main_button BTN_LEFT now w
         else if btn_right data then main_button BTN_RIGHT now w
         else if btn_middle data then (Continue, w\<lparr>stdout := stdout w @ [''p'']\<rparr>)
         else (Continue, w))
      else
        (if data_z data \<noteq> 0 then
           (if sint (data_z data) > 0 then (Continue, w\<lparr>stdout := stdout w @ [''9'']\<rparr>)
            else (Continue, w\<lparr>stdout := stdout w @ [''0'']\<rparr>))
         else (Continue, w)))"

text \<open>
  One answer of \<^verbatim>\<open>read(mice_fd, &data, sizeof(data))\<close>: the value returned, \<^verbatim>\<open>errno\<close>, and
  the buffer seen as an \<^verbatim>\<open>imps2_data\<close>. \<^verbatim>\<open>EAGAIN\<close> has its Linux value.
\<close>

record read_result =
  nLen :: int
  errno :: int
  data :: imps2_data

definition EAGAIN :: int where
  "EAGAIN = 11"

text \<open>
  The inner \<^verbatim>\<open>while (true)\<close> over the answers of \<^verbatim>\<open>read\<close>, each paired with the clock
  value a \<^verbatim>\<open>gettimeofday\<close> would read while that report is handled. \<open>Continue\<close> is the
  \<^verbatim>\<open>break\<close>.
\<close>

fun drain :: "(read_result \<times> timeval) list \<Rightarrow> world \<Rightarrow> control \<times> world" where
  "drain [] w = (Running, w)"
| "drain ((r, now) # rs) w =
     (if nLen r = 0 then (Return 1, w)
      else if nLen r = -1 then
        (if errno r \<noteq> EAGAIN then (Return 1, w) else (Continue, w))
      else if nLen r = sizeof_data then
        (case main_dispatch (data r) now w of
           (Continue, w') \<Rightarrow> drain rs w'
         | res \<Rightarrow> res)
      else drain rs w)"

text \<open>
  One turn of the outer loop: the value \<^verbatim>\<open>select\<close> returns, whether \<^verbatim>\<open>FD_ISSET\<close> holds
  afterwards, the answers of \<^verbatim>\<open>read\<close>, and the clock value \<^verbatim>\<open>Timer\<close> reads.
\<close>

record iteration =
  sel_ret :: int
  sel_isset :: bool
  reads :: "(read_result \<times> timeval) list"
  timer_now :: timeval

fun main_loop :: "iteration list \<Rightarrow> world \<Rightarrow> control \<times> world" where
  "main_loop [] w = (Running, w)"
| "main_loop (it # its) w =
     (if sel_ret it < 0 then (Return 1, w)
      else
        (case (if sel_isset it then drain (reads it) w else (Continue, w)) of
           (Continue, w') \<Rightarrow>
             (case Timer (timer_now it) (btnProcess w') of
                Inl e \<Rightarrow> (Aborted, w')
              | Inr (s', ls) \<Rightarrow>
                  main_loop its (w'\<lparr>btnProcess := s', stdout := stdout w' @ ls\<rparr>))
         | res \<Rightarrow> res))"

text \<open>
  \<^verbatim>\<open>main\<close>, on the answers of \<^verbatim>\<open>open\<close> and of the mode-switch \<^verbatim>\<open>write\<close> and the turns of
  the loop.
\<close>

record main_env =
  open_ret :: int
  write_ret :: int
  iterations :: "iteration list"

definition main :: "main_env \<Rightarrow> control \<times> world" where
  "main env =
     (let w0 = \<lparr>btnProcess = ButtonProcess_init, stdout = [], mice_fd_open = False\<rparr> in
      if open_ret env = -1 then (Return 1, w0)
      else
        (let w1 = w0\<lparr>mice_fd_open := True\<rparr> in
         if write_ret env < 0 then (Return 1, w1)
         else main_loop (iterations env) w1))"

section \<open>Predicates used to state the properties\<close>

text \<open>The timer is armed exactly while a button is pending.\<close>

definition classifier_inv :: "ButtonProcess \<Rightarrow> bool" where
  "classifier_inv s = (m_bTimer s = (m_btnPre s \<noteq> BTN_NULL))"

text \<open>
  The clock values that \<^verbatim>\<open>gettimeofday\<close> returns: seconds since the epoch, not negative
  and small enough for the millisecond reading to fit a \<^verbatim>\<open>long\<close>, and microseconds from
  0 to 999999. \<open>ms_of\<close> is the millisecond reading of such a value as a number.
\<close>

definition clock_value :: "timeval \<Rightarrow> bool" where
  "clock_value tv =
     (0 \<le> sint (tv_sec tv) \<and> sint (tv_sec tv) \<le> 9223372036854774 \<and>
      0 \<le> sint (tv_usec tv) \<and> sint (tv_usec tv) \<le> 999999)"

definition ms_of :: "timeval \<Rightarrow> int" where
  "ms_of tv = sint (tv_sec tv) * 1000 + sint (tv_usec tv) div 1000"

text \<open>
  The report \<open>d\<close> is one that \<^verbatim>\<open>main\<close> hands to \<^verbatim>\<open>Button\<close> with button \<open>b\<close>: all three offsets
  are zero, and \<open>b\<close> is the first of left, right whose bit is set.
\<close>

definition press_of :: "imps2_data \<Rightarrow> btn \<Rightarrow> bool" where
  "press_of d b =
     (data_z d = 0 \<and> data_x d = 0 \<and> data_y d = 0 \<and>
      (case b of BTN_LEFT \<Rightarrow> btn_left d
               | BTN_RIGHT \<Rightarrow> \<not> btn_left d \<and> btn_right d
               | BTN_NULL \<Rightarrow> False))"

text \<open>
The answer of \<^verbatim>\<open>read\<close> that ends a drain: \<^verbatim>\<open>-1\<close> with \<^verbatim>\<open>errno == EAGAIN\<close>.
\<close>

definition would_block :: "read_result \<Rightarrow> bool" where
  "would_block r = (nLen r = -1 \<and> errno r = EAGAIN)"

text \<open>
A full-size answer of \<^verbatim>\<open>read\<close> whose report has a wheel offset, and the line it prints.
\<close>

definition wheel_read :: "read_result \<times> timeval \<Rightarrow> bool" where
  "wheel_read rn = (nLen (fst rn) = sizeof_data \<and> data_z (data (fst rn)) \<noteq> 0)"

definition wheel_line :: "read_result \<times> timeval \<Rightarrow> string" where
  "wheel_line rn = (if sint (data_z (data (fst rn))) > 0 then ''9'' else ''0'')"

text \<open>
  A turn of the outer loop in which \<^verbatim>\<open>select\<close> succeeds, every report read has a wheel
  offset and the drain ends with would-block, and whose \<^verbatim>\<open>Timer\<close> reads a clock value
  whose millisecond reading is less than 300 above that of \<open>t0\<close>; and the lines such a
  turn prints.
\<close>

definition wheel_turn :: "timeval \<Rightarrow> iteration \<Rightarrow> bool" where
  "wheel_turn t0 it =
     (\<not> sel_ret it < 0 \<and>
      (if sel_isset it
       then reads it \<noteq> [] \<and> list_all wheel_read (butlast (reads it))
            \<and> would_block (fst (last (reads it)))
       else True) \<and>
      clock_value (timer_now it) \<and> ms_of (timer_now it) - ms_of t0 < 300)"

definition turn_lines :: "iteration \<Rightarrow> string list" where
  "turn_lines it = (if sel_isset it then map wheel_line (butlast (reads it)) else [])"

text \<open>
  The state of a run in which no quit has been printed, and the results of a piece of
  \<^verbatim>\<open>main\<close> that are consistent with it: status 0 comes with a \<open>q\<close> on the output, every
  other result without one, and no assertion has failed.
\<close>

definition clean :: "world \<Rightarrow> bool" where
  "clean w = (classifier_inv (btnProcess w) \<and> ''q'' \<notin> set (stdout w))"

definition good :: "control \<times> world \<Rightarrow> bool" where
  "good r =
     (case fst r of
        Continue \<Rightarrow> clean (snd r)
      | Running \<Rightarrow> clean (snd r)
      | Return n \<Rightarrow> (n = 0 \<and> ''q'' \<in> set (stdout (snd r))) \<or> (n = 1 \<and> clean (snd r))
      | Aborted \<Rightarrow> False)"

text \<open>
  Concrete inputs: a report with the given button bits and offsets (bit 3 set and the
  sign bits following the offsets, as the kernel's \<^verbatim>\<open>mousedev\<close> fills them), a clock
  value, a full-size and a would-block answer of \<^verbatim>\<open>read\<close>, and the state of \<^verbatim>\<open>main\<close> when
  it enters its loop.
\<close>

abbreviation report :: "bool \<Rightarrow> bool \<Rightarrow> bool \<Rightarrow> 8 word \<Rightarrow> 8 word \<Rightarrow> 8 word \<Rightarrow> imps2_data" where
  "report l r m dx dy dz \<equiv>
     \<lparr>btn_left = l, btn_right = r, btn_middle = m, NONE = True,
      x_sign = (sint dx < 0), y_sign = (sint dy < 0), x_overflow = False, y_overflow = False,
      data_x = dx, data_y = dy, data_z = dz\<rparr>"

abbreviation tv :: "long \<Rightarrow> long \<Rightarrow> timeval" where
  "tv s us \<equiv> \<lparr>tv_sec = s, tv_usec = us\<rparr>"

abbreviation full_read :: "imps2_data \<Rightarrow> read_result" where
  "full_read d \<equiv> \<lparr>nLen = 4, errno = 0, data = d\<rparr>"

abbreviation eagain_read :: read_result where
  "eagain_read \<equiv> \<lparr>nLen = -1, errno = 11, data = report False False False 0 0 0\<rparr>"

abbreviation world0 :: world where
  "world0 \<equiv> \<lparr>btnProcess = ButtonProcess_init, stdout = [], mice_fd_open = True\<rparr>"

section \<open>Lemmas about the classifier\<close>

lemma classifier_inv_init: "classifier_inv ButtonProcess_init"
  by (simp add: classifier_inv_def ButtonProcess_init_def)

lemma Button_inv:
  "Button b now s = Inr (ok, s', ls) \<Longrightarrow> classifier_inv s'"
  by (auto simp: Button_def classifier_inv_def EnableTimer_def DisableTimer_def
           split: if_splits)

lemma Timer_inv:
  "classifier_inv s \<Longrightarrow> Timer now s = Inr (s', ls) \<Longrightarrow> classifier_inv s'"
  by (auto simp: Timer_def classifier_inv_def IsTimerEnable_def DisableTimer_def Let_def
           split: if_splits)

lemma Timer_no_assert:
  "classifier_inv s \<Longrightarrow> \<exists>s' ls. Timer now s = Inr (s', ls)"
  by (simp add: Timer_def classifier_inv_def IsTimerEnable_def Let_def)

lemma Button_no_assert:
  "b \<noteq> BTN_NULL \<Longrightarrow> \<exists>ok s' ls. Button b now s = Inr (ok, s', ls)"
  by (cases b) (auto simp: Button_def)

lemma Timer_idle:
  "m_btnPre s = BTN_NULL \<Longrightarrow> classifier_inv s \<Longrightarrow> Timer now s = Inr (s, [])"
  by (simp add: Timer_def classifier_inv_def IsTimerEnable_def)

text \<open>
  On clock values no step of the millisecond arithmetic leaves the range of \<^verbatim>\<open>long\<close>, so
  the interval that \<^verbatim>\<open>Timer\<close> computes is the difference of the two readings.
\<close>

lemma clock_value_ms:
  assumes "clock_value t"
  shows "tv_ms t = word_of_int (ms_of t)" and "0 \<le> ms_of t"
    and "ms_of t \<le> 9223372036854774999"
proof -
  from assms have u: "0 \<le> sint (tv_usec t)" "sint (tv_usec t) \<le> 999999"
    and s: "0 \<le> sint (tv_sec t)" "sint (tv_sec t) \<le> 9223372036854774"
    by (simp_all add: clock_value_def)
  from u have c: "c_div (sint (tv_usec t)) 1000 = sint (tv_usec t) div 1000"
    by (simp add: c_div_def)
  show "tv_ms t = word_of_int (ms_of t)"
    by (simp add: tv_ms_def long_div_def c ms_of_def)
  from u have d: "0 \<le> sint (tv_usec t) div 1000" "sint (tv_usec t) div 1000 \<le> 999"
    by simp_all
  from s d show "0 \<le> ms_of t" by (simp add: ms_of_def)
  from s d show "ms_of t \<le> 9223372036854774999" by (simp add: ms_of_def)
qed

lemma interval_clock_values:
  assumes "clock_value a" and "clock_value b"
  shows "sint (tv_ms a - tv_ms b) = ms_of a - ms_of b"
proof -
  note A = clock_value_ms [OF assms(1)] and B = clock_value_ms [OF assms(2)]
  have "tv_ms a - tv_ms b = word_of_int (ms_of a - ms_of b)"
    by (simp add: A(1) B(1))
  then have "sint (tv_ms a - tv_ms b) = sint (word_of_int (ms_of a - ms_of b) :: long)"
    by (simp only:)
  also have "\<dots> = signed_take_bit (LENGTH(64) - 1) (ms_of a - ms_of b)"
    by (rule sint_sbintrunc')
  also have "\<dots> = signed_take_bit 63 (ms_of a - ms_of b)"
    by simp
  also have "\<dots> = ms_of a - ms_of b"
    using A(2,3) B(2,3) by (intro signed_take_bit_int_eq_self) simp_all
  finally show ?thesis .
qed

lemma Timer_clock_values:
  assumes "clock_value now" and "clock_value (m_tv_cur s)"
  shows "Timer now s =
     (if IsTimerEnable s then
        (if ms_of now - ms_of (m_tv_cur s) \<ge> 300 then
           (if \<not> (m_btnPre s \<noteq> BTN_NULL) then Inl AssertionFailed
            else Inr ((DisableTimer s)\<lparr>m_btnPre := BTN_NULL\<rparr>,
                      [if m_btnPre s = BTN_LEFT then ''<'' else ''>'']))
         else Inr (s, []))
      else Inr (s, []))"
  by (simp add: Timer_def Let_def interval_clock_values [OF assms])

lemma Timer_early:
  "clock_value now \<Longrightarrow> clock_value (m_tv_cur s) \<Longrightarrow>
     ms_of now - ms_of (m_tv_cur s) < 300 \<Longrightarrow> Timer now s = Inr (s, [])"
  by (simp add: Timer_clock_values)

text \<open>
  Beyond the clock values the product \<^verbatim>\<open>tv_sec*1000\<close> wraps around: armed at 0 s, \<^verbatim>\<open>Timer\<close>
  reading 9223372036854776 s computes a negative interval and prints nothing.
\<close>

lemma Timer_wraps_around:
  "sint (tv_ms \<lparr>tv_sec = 9223372036854776, tv_usec = 0\<rparr> - tv_ms \<lparr>tv_sec = 0, tv_usec = 0\<rparr>)
     = - 9223372036854775616
   \<and> Timer \<lparr>tv_sec = 9223372036854776, tv_usec = 0\<rparr>
       \<lparr>m_btnPre = BTN_LEFT, m_tv_cur = \<lparr>tv_sec = 0, tv_usec = 0\<rparr>, m_bTimer = True\<rparr>
     = Inr (\<lparr>m_btnPre = BTN_LEFT, m_tv_cur = \<lparr>tv_sec = 0, tv_usec = 0\<rparr>, m_bTimer = True\<rparr>, [])"
  by (simp add: Timer_def IsTimerEnable_def tv_ms_def long_div_def c_div_def)

lemma Timer_off:
  "\<not> m_bTimer s \<Longrightarrow> Timer now s = Inr (s, [])"
  by (simp add: Timer_def IsTimerEnable_def)

lemma do_call_inv:
  "classifier_inv s \<Longrightarrow> do_call c s = Inr (s', ls) \<Longrightarrow> classifier_inv s'"
  by (cases c) (auto dest: Button_inv Timer_inv split: sum.splits)

lemma run_calls_inv:
  "classifier_inv s \<Longrightarrow> run_calls cs s = Inr (s', ls) \<Longrightarrow> classifier_inv s'"
proof (induction cs arbitrary: s s' ls)
  case Nil
  then show ?case by simp
next
  case (Cons c cs)
  from Cons.prems(2) obtain s1 l1 l2 where
    c1: "do_call c s = Inr (s1, l1)" and c2: "run_calls cs s1 = Inr (s', l2)"
    by (auto split: sum.splits)
  from do_call_inv [OF Cons.prems(1) c1] have "classifier_inv s1" .
  from Cons.IH [OF this c2] show ?case .
qed

lemma reachable_inv:
  "run_calls cs ButtonProcess_init = Inr (s, ls) \<Longrightarrow> classifier_inv s"
  by (rule run_calls_inv [OF classifier_inv_init])

text \<open>What a call prints is nothing or one decision; after a decision the object is idle.\<close>

lemma Button_decision:
  "Button b now s = Inr (ok, s', ls) \<Longrightarrow>
     ls = [] \<or> (ls \<in> {[''z''], [''x''], [''q'']} \<and> m_btnPre s' = BTN_NULL \<and> \<not> m_bTimer s')"
  by (auto simp: Button_def DisableTimer_def split: if_splits)

lemma Timer_decision:
  "Timer now s = Inr (s', ls) \<Longrightarrow>
     ls = [] \<or> (ls \<in> {[''<''], [''>'']} \<and> m_btnPre s' = BTN_NULL \<and> \<not> m_bTimer s')"
  by (auto simp: Timer_def DisableTimer_def Let_def split: if_splits)

lemma run_Timer_idle:
  "m_btnPre s = BTN_NULL \<Longrightarrow> classifier_inv s \<Longrightarrow>
     run_calls (map Call_Timer ts) s = Inr (s, [])"
  by (induction ts) (simp_all add: Timer_idle)

lemma Button_quit:
  "m_btnPre s = B1 \<Longrightarrow> B1 \<noteq> BTN_NULL \<Longrightarrow> B2 \<noteq> BTN_NULL \<Longrightarrow> B2 \<noteq> B1 \<Longrightarrow>
     Button B2 now s = Inr (False, s\<lparr>m_btnPre := BTN_NULL, m_bTimer := False\<rparr>, [''q''])"
  by (cases B2) (auto simp: Button_def DisableTimer_def)

lemma Button_same:
  "m_btnPre s = B \<Longrightarrow> B \<noteq> BTN_NULL \<Longrightarrow>
     Button B now s = Inr (True, s\<lparr>m_btnPre := BTN_NULL, m_bTimer := False\<rparr>,
       [if B = BTN_LEFT then ''z'' else ''x''])"
  by (cases B) (auto simp: Button_def DisableTimer_def)

lemma Button_first:
  "m_btnPre s = BTN_NULL \<Longrightarrow> B \<noteq> BTN_NULL \<Longrightarrow>
     Button B now s = Inr (True, s\<lparr>m_btnPre := B, m_bTimer := True, m_tv_cur := now\<rparr>, [])"
  by (cases B) (auto simp: Button_def EnableTimer_def)

section \<open>Lemmas about the event loop\<close>

subsection \<open>The branches of the two loops\<close>

lemma drain_eof:
  "nLen r = 0 \<Longrightarrow> drain ((r, now) # rs) w = (Return 1, w)"
  by simp

lemma drain_error:
  "nLen r = -1 \<Longrightarrow> errno r \<noteq> EAGAIN \<Longrightarrow> drain ((r, now) # rs) w = (Return 1, w)"
  by simp

lemma drain_would_block:
  "would_block r \<Longrightarrow> drain ((r, now) # rs) w = (Continue, w)"
  by (simp add: would_block_def)

lemma drain_full:
  "nLen r = sizeof_data \<Longrightarrow>
     drain ((r, now) # rs) w =
       (case main_dispatch (data r) now w of (Continue, w') \<Rightarrow> drain rs w' | res \<Rightarrow> res)"
  by (simp add: sizeof_data_def)

lemma drain_short:
  "nLen r \<noteq> 0 \<Longrightarrow> nLen r \<noteq> -1 \<Longrightarrow> nLen r \<noteq> sizeof_data \<Longrightarrow>
     drain ((r, now) # rs) w = drain rs w"
  by simp

lemma main_loop_select_error:
  "sel_ret it < 0 \<Longrightarrow> main_loop (it # its) w = (Return 1, w)"
  by simp

lemma main_loop_not_ready:
  assumes "\<not> sel_ret it < 0" and "\<not> sel_isset it"
    and "Timer (timer_now it) (btnProcess w) = Inr (s', ls)"
  shows "main_loop (it # its) w = main_loop its (w\<lparr>btnProcess := s', stdout := stdout w @ ls\<rparr>)"
  using assms by simp

lemma main_loop_drained:
  assumes "\<not> sel_ret it < 0" and "sel_isset it" and "drain (reads it) w = (Continue, w')"
    and "Timer (timer_now it) (btnProcess w') = Inr (s', ls)"
  shows "main_loop (it # its) w = main_loop its (w'\<lparr>btnProcess := s', stdout := stdout w' @ ls\<rparr>)"
  using assms by simp

lemma main_loop_exit:
  assumes "\<not> sel_ret it < 0" and "sel_isset it" and "drain (reads it) w = (Return n, w')"
  shows "main_loop (it # its) w = (Return n, w')"
  using assms by simp

lemma main_loop_consumed:
  assumes "\<not> sel_ret it < 0" and "sel_isset it" and "drain (reads it) w = drain rs w'"
  shows "main_loop (it # its) w = main_loop (it\<lparr>reads := rs\<rparr> # its) w'"
  using assms by (auto split: prod.splits control.splits sum.splits)

declare drain.simps(2) [simp del] main_loop.simps(2) [simp del]

subsection \<open>Single reports\<close>

lemma main_button_Button:
  "b \<noteq> BTN_NULL \<Longrightarrow>
     \<exists>ok s' ls. Button b now (btnProcess w) = Inr (ok, s', ls)
       \<and> main_button b now w =
           (if ok then Continue else Return 0,
            w\<lparr>btnProcess := s', stdout := stdout w @ ls,
              mice_fd_open := (ok \<and> mice_fd_open w)\<rparr>)"
proof -
  assume "b \<noteq> BTN_NULL"
  from Button_no_assert [OF this] obtain ok s' ls
    where B: "Button b now (btnProcess w) = Inr (ok, s', ls)"
    by blast
  then show ?thesis by (cases ok) (auto simp: main_button_def)
qed

lemma main_button_quit:
  assumes "m_btnPre (btnProcess w) = B1" and "B1 \<noteq> BTN_NULL" and "B2 \<noteq> BTN_NULL" and "B2 \<noteq> B1"
  shows "main_button B2 now w =
     (Return 0, w\<lparr>btnProcess := (btnProcess w)\<lparr>m_btnPre := BTN_NULL, m_bTimer := False\<rparr>,
                  stdout := stdout w @ [''q''], mice_fd_open := False\<rparr>)"
  by (simp add: main_button_def Button_quit [OF assms])

lemma main_button_same:
  assumes "m_btnPre (btnProcess w) = B" and "B \<noteq> BTN_NULL"
  shows "main_button B now w =
     (Continue, w\<lparr>btnProcess := (btnProcess w)\<lparr>m_btnPre := BTN_NULL, m_bTimer := False\<rparr>,
                  stdout := stdout w @ [if B = BTN_LEFT then ''z'' else ''x'']\<rparr>)"
  by (simp add: main_button_def Button_same [OF assms])

lemma main_button_first:
  assumes "m_btnPre (btnProcess w) = BTN_NULL" and "B \<noteq> BTN_NULL"
  shows "main_button B now w =
     (Continue, w\<lparr>btnProcess := (btnProcess w)\<lparr>m_btnPre := B, m_bTimer := True, m_tv_cur := now\<rparr>\<rparr>)"
  by (simp add: main_button_def Button_first [OF assms])

lemma main_dispatch_press:
  "press_of d b \<Longrightarrow> main_dispatch d now w = main_button b now w"
  by (cases b) (simp_all add: press_of_def main_dispatch_def)

lemma main_dispatch_wheel:
  "data_z d \<noteq> 0 \<Longrightarrow>
     main_dispatch d now w =
       (Continue, w\<lparr>stdout := stdout w @ [if sint (data_z d) > 0 then ''9'' else ''0'']\<rparr>)"
  by (simp add: main_dispatch_def)

lemma main_dispatch_motion:
  "data_z d = 0 \<Longrightarrow> data_x d \<noteq> 0 \<or> data_y d \<noteq> 0 \<Longrightarrow> main_dispatch d now w = (Continue, w)"
  by (auto simp: main_dispatch_def)

subsection \<open>Turns that carry wheel reports only\<close>

lemma drain_wheels:
  "list_all wheel_read ws \<Longrightarrow>
     drain (ws @ rest) w = drain rest (w\<lparr>stdout := stdout w @ map wheel_line ws\<rparr>)"
proof (induction ws arbitrary: w)
  case Nil
  then show ?case by simp
next
  case (Cons a ws)
  obtain r now where a: "a = (r, now)" by (cases a)
  from Cons.prems a have n: "nLen r = sizeof_data" and z: "data_z (data r) \<noteq> 0"
    by (simp_all add: wheel_read_def)
  from Cons.prems have rest: "list_all wheel_read ws"
    by simp
  have "drain ((a # ws) @ rest) w =
      drain (ws @ rest) (w\<lparr>stdout := stdout w @ [wheel_line a]\<rparr>)"
    using z a by (simp add: drain_full [OF n] main_dispatch_wheel wheel_line_def)
  also have "\<dots> = drain rest (w\<lparr>stdout := stdout w @ map wheel_line (a # ws)\<rparr>)"
    by (simp add: Cons.IH [OF rest])
  finally show ?case .
qed

lemma wheel_turn_step:
  assumes "wheel_turn (m_tv_cur (btnProcess w)) it" and cv: "clock_value (m_tv_cur (btnProcess w))"
  shows "main_loop (it # rest) w = main_loop rest (w\<lparr>stdout := stdout w @ turn_lines it\<rparr>)"
proof (cases "sel_isset it")
  case False
  from assms(1) have sel: "\<not> sel_ret it < 0" and cn: "clock_value (timer_now it)"
    and early: "ms_of (timer_now it) - ms_of (m_tv_cur (btnProcess w)) < 300"
    by (simp_all add: wheel_turn_def)
  from main_loop_not_ready [OF sel False Timer_early [OF cn cv early]] False
  show ?thesis by (simp add: turn_lines_def)
next
  case True
  with assms(1) have ne: "reads it \<noteq> []" and ws: "list_all wheel_read (butlast (reads it))"
    and wb: "would_block (fst (last (reads it)))"
    and cn: "clock_value (timer_now it)"
    and early: "ms_of (timer_now it) - ms_of (m_tv_cur (btnProcess w)) < 300"
    and sel: "\<not> sel_ret it < 0"
    by (simp_all add: wheel_turn_def)
  obtain e u where last: "last (reads it) = (e, u)" by (cases "last (reads it)")
  from ne last have split: "reads it = butlast (reads it) @ [(e, u)]"
    by (metis append_butlast_last_id)
  from wb last have wbe: "would_block e" by simp
  have tl: "turn_lines it = map wheel_line (butlast (reads it))"
    using True by (simp add: turn_lines_def)
  have "drain (reads it) w = drain (butlast (reads it) @ [(e, u)]) w"
    using split by simp
  also have "\<dots> = drain [(e, u)] (w\<lparr>stdout := stdout w @ map wheel_line (butlast (reads it))\<rparr>)"
    by (rule drain_wheels [OF ws])
  also have "\<dots> = (Continue, w\<lparr>stdout := stdout w @ map wheel_line (butlast (reads it))\<rparr>)"
    by (rule drain_would_block [OF wbe])
  finally have d: "drain (reads it) w = (Continue, w\<lparr>stdout := stdout w @ turn_lines it\<rparr>)"
    by (simp only: tl)
  have T: "Timer (timer_now it) (btnProcess (w\<lparr>stdout := stdout w @ turn_lines it\<rparr>))
      = Inr (btnProcess w, [])"
    using Timer_early [OF cn cv early] by simp
  from main_loop_drained [OF sel True d T] show ?thesis by simp
qed

lemma wheel_turns:
  "list_all (wheel_turn (m_tv_cur (btnProcess w))) its \<Longrightarrow>
   clock_value (m_tv_cur (btnProcess w)) \<Longrightarrow>
     main_loop (its @ rest) w =
       main_loop rest (w\<lparr>stdout := stdout w @ concat (map turn_lines its)\<rparr>)"
proof (induction its arbitrary: w)
  case Nil
  then show ?case by simp
next
  case (Cons it its)
  from Cons.prems have h: "wheel_turn (m_tv_cur (btnProcess w)) it"
    and t: "list_all (wheel_turn (m_tv_cur (btnProcess (w\<lparr>stdout := stdout w @ turn_lines it\<rparr>)))) its"
    and c: "clock_value (m_tv_cur (btnProcess (w\<lparr>stdout := stdout w @ turn_lines it\<rparr>)))"
    by simp_all
  show ?case
    using wheel_turn_step [OF h Cons.prems(2), of "its @ rest"] Cons.IH [OF t c] by simp
qed

subsection \<open>Exit status and output of a whole run\<close>

lemma good_Continue: "good (Continue, w) = clean w"
  and good_Running: "good (Running, w) = clean w"
  and good_Return1: "clean w \<Longrightarrow> good (Return 1, w)"
  by (simp_all add: good_def)

lemma main_button_good:
  assumes "clean w" and "b \<noteq> BTN_NULL"
  shows "good (main_button b now w)"
proof -
  from Button_no_assert [OF assms(2)] obtain ok s' ls
    where B: "Button b now (btnProcess w) = Inr (ok, s', ls)"
    by blast
  from Button_inv [OF B] have inv: "classifier_inv s'" .
  from B have q: "(\<not> ok) = (''q'' \<in> set ls)"
    by (auto simp: Button_def split: if_splits)
  show ?thesis
    using assms(1) B inv q by (auto simp: main_button_def good_def clean_def Let_def)
qed

lemma main_dispatch_good:
  assumes "clean w"
  shows "good (main_dispatch d now w)"
proof -
  have p: "clean (w\<lparr>stdout := stdout w @ [l]\<rparr>)" if "l \<noteq> ''q''" for l
    using assms that by (simp add: clean_def)
  have "clean (w\<lparr>stdout := stdout w @ [''p'']\<rparr>)" "clean (w\<lparr>stdout := stdout w @ [''9'']\<rparr>)"
    "clean (w\<lparr>stdout := stdout w @ [''0'']\<rparr>)"
    by (simp_all add: p)
  then show ?thesis
    unfolding main_dispatch_def
    using assms by (simp add: main_button_good good_Continue)
qed

lemma drain_good: "clean w \<Longrightarrow> good (drain rs w)"
proof (induction rs arbitrary: w)
  case Nil
  then show ?case by (simp add: good_Running)
next
  case (Cons a rs)
  obtain r now where a: "a = (r, now)" by (cases a)
  obtain c w' where d: "main_dispatch (data r) now w = (c, w')"
    by (cases "main_dispatch (data r) now w")
  from main_dispatch_good [OF Cons.prems, of "data r" now] d have g: "good (c, w')" by simp
  have cont: "good (drain rs w')" if "c = Continue"
    using g that Cons.IH [of w'] by (simp add: good_Continue)
  show ?case
  proof (cases c)
    case Continue
    with cont a d Cons.prems Cons.IH [OF Cons.prems] show ?thesis
      by (simp add: good_Continue good_Return1 drain.simps(2))
  next
    case (Return n)
    with g a d Cons.prems Cons.IH [OF Cons.prems] show ?thesis
      by (simp add: good_Continue good_Return1 drain.simps(2))
  next
    case Aborted
    with g show ?thesis by (simp add: good_def)
  next
    case Running
    with g a d Cons.prems Cons.IH [OF Cons.prems] show ?thesis
      by (simp add: good_Continue good_Return1 drain.simps(2))
  qed
qed

lemma Timer_clean:
  assumes "clean w"
  shows "\<exists>s' ls. Timer now (btnProcess w) = Inr (s', ls)
           \<and> clean (w\<lparr>btnProcess := s', stdout := stdout w @ ls\<rparr>)"
proof -
  from assms have inv: "classifier_inv (btnProcess w)" by (simp add: clean_def)
  from Timer_no_assert [OF inv] obtain s' ls where T: "Timer now (btnProcess w) = Inr (s', ls)"
    by blast
  from Timer_inv [OF inv T] have "classifier_inv s'" .
  moreover from Timer_decision [OF T] have "''q'' \<notin> set ls" by auto
  ultimately show ?thesis using T assms by (auto simp: clean_def)
qed

lemma main_loop_good: "clean w \<Longrightarrow> good (main_loop its w)"
proof (induction its arbitrary: w)
  case Nil
  then show ?case by (simp add: good_Running)
next
  case (Cons it its)
  define r where "r = (if sel_isset it then drain (reads it) w else (Continue, w))"
  have g: "good r"
    using Cons.prems by (simp add: r_def drain_good good_Continue)
  obtain c w' where r: "r = (c, w')" by (cases r)
  show ?case
  proof (cases "sel_ret it < 0")
    case True
    with Cons.prems show ?thesis by (simp add: good_Return1 main_loop_select_error)
  next
    case False
    show ?thesis
    proof (cases c)
      case Continue
      with g r have cw: "clean w'" by (simp add: good_Continue)
      from Timer_clean [OF cw, of "timer_now it"] obtain s' ls where
        T: "Timer (timer_now it) (btnProcess w') = Inr (s', ls)"
        and c': "clean (w'\<lparr>btnProcess := s', stdout := stdout w' @ ls\<rparr>)"
        by blast
      have "main_loop (it # its) w = main_loop its (w'\<lparr>btnProcess := s', stdout := stdout w' @ ls\<rparr>)"
        using False r Continue T unfolding r_def by (simp add: main_loop.simps(2))
      with Cons.IH [OF c'] show ?thesis by simp
    next
      case (Return n)
      have "main_loop (it # its) w = r"
        using False r Return unfolding r_def by (simp add: main_loop.simps(2))
      with g show ?thesis by simp
    next
      case Aborted
      with g r show ?thesis by (simp add: good_def)
    next
      case Running
      have "main_loop (it # its) w = r"
        using False r Running unfolding r_def by (simp add: main_loop.simps(2))
      with g show ?thesis by simp
    qed
  qed
qed

lemma main_good: "good (main env)"
proof -
  have c: "clean \<lparr>btnProcess = ButtonProcess_init, stdout = [], mice_fd_open = b\<rparr>" for b
    by (simp add: clean_def classifier_inv_init)
  show ?thesis
    using c [of False] c [of True]
    by (simp add: main_def Let_def good_Return1 main_loop_good)
qed

lemma good_exit:
  assumes "good r"
  shows "(fst r = Return 0) = (''q'' \<in> set (stdout (snd r)))"
    and "fst r = Return 0 \<or> fst r = Return 1 \<or> fst r = Running \<or> fst r = Continue"
  using assms by (auto simp: good_def clean_def split: control.splits)

lemma main_loop_not_Continue: "fst (main_loop its w) \<noteq> Continue"
  by (induction its arbitrary: w)
    (auto simp: main_loop.simps(2) split: prod.splits control.splits sum.splits)

lemma main_not_Continue: "fst (main env) \<noteq> Continue"
  by (simp add: main_def Let_def main_loop_not_Continue)

section \<open>The classifier: C1, C2, C5, C9\<close>

text \<open>
  C1. Let the classifier be in a state reached from the constructor in which button \<open>B\<close> is
  pending; its armed time is \<open>m_tv_cur\<close>. Let the armed time and the time \<open>now\<close> that
  \<^verbatim>\<open>Timer\<close> reads be clock values, as \<^verbatim>\<open>gettimeofday\<close> returns them. Then the timer is
  enabled, and \<^verbatim>\<open>Timer\<close> does the following. If the millisecond reading of \<open>now\<close> minus the
  millisecond reading of the armed time is at least 300, it prints exactly one line,
  \<open><\<close> for the left and \<open>>\<close> for the right button, and leaves no button pending and the
  timer off. If the difference is under 300, it prints nothing and changes nothing.
  Each reading is cut to whole milliseconds before the subtraction. (Outside the clock
  values the \<^verbatim>\<open>long\<close> arithmetic of \<^verbatim>\<open>Timer\<close> can wrap around; nothing is claimed there.)
\<close>

theorem Timer_pending:
  assumes "run_calls cs ButtonProcess_init = Inr (s, ls)"
    and "m_btnPre s = B" and "B \<noteq> BTN_NULL"
    and "clock_value now" and "clock_value (m_tv_cur s)"
  shows "m_bTimer s \<and>
    Timer now s =
      (if ms_of now - ms_of (m_tv_cur s) \<ge> 300
       then Inr (s\<lparr>m_btnPre := BTN_NULL, m_bTimer := False\<rparr>,
                 [if B = BTN_LEFT then ''<'' else ''>''])
       else Inr (s, []))"
proof -
  from reachable_inv [OF assms(1)] assms(2,3) have t: "m_bTimer s"
    by (simp add: classifier_inv_def)
  show ?thesis using t assms(2,3)
    by (simp add: Timer_clock_values [OF assms(4,5)] IsTimerEnable_def DisableTimer_def)
qed

text \<open>
  Armed at 5.000999 s, \<^verbatim>\<open>Timer\<close> at 5.300000 s sees 5300 - 5000 = 300 and prints \<open><\<close>;
  armed at 5.000000 s, \<^verbatim>\<open>Timer\<close> at 5.299999 s sees 299 and does nothing.
\<close>

theorem Timer_pending_witness:
  "clock_value \<lparr>tv_sec = 5, tv_usec = 999\<rparr> \<and> clock_value \<lparr>tv_sec = 5, tv_usec = 300000\<rparr>
   \<and> clock_value \<lparr>tv_sec = 5, tv_usec = 0\<rparr> \<and> clock_value \<lparr>tv_sec = 5, tv_usec = 299999\<rparr>
   \<and> run_calls [Call_Button BTN_LEFT \<lparr>tv_sec = 5, tv_usec = 999\<rparr>] ButtonProcess_init
     = Inr (\<lparr>m_btnPre = BTN_LEFT, m_tv_cur = \<lparr>tv_sec = 5, tv_usec = 999\<rparr>, m_bTimer = True\<rparr>, [])
   \<and> Timer \<lparr>tv_sec = 5, tv_usec = 300000\<rparr>
       \<lparr>m_btnPre = BTN_LEFT, m_tv_cur = \<lparr>tv_sec = 5, tv_usec = 999\<rparr>, m_bTimer = True\<rparr>
     = Inr (\<lparr>m_btnPre = BTN_NULL, m_tv_cur = \<lparr>tv_sec = 5, tv_usec = 999\<rparr>, m_bTimer = False\<rparr>,
            [''<''])
   \<and> run_calls [Call_Button BTN_RIGHT \<lparr>tv_sec = 5, tv_usec = 0\<rparr>] ButtonProcess_init
     = Inr (\<lparr>m_btnPre = BTN_RIGHT, m_tv_cur = \<lparr>tv_sec = 5, tv_usec = 0\<rparr>, m_bTimer = True\<rparr>, [])
   \<and> Timer \<lparr>tv_sec = 5, tv_usec = 299999\<rparr>
       \<lparr>m_btnPre = BTN_RIGHT, m_tv_cur = \<lparr>tv_sec = 5, tv_usec = 0\<rparr>, m_bTimer = True\<rparr>
     = Inr (\<lparr>m_btnPre = BTN_RIGHT, m_tv_cur = \<lparr>tv_sec = 5, tv_usec = 0\<rparr>, m_bTimer = True\<rparr>, [])"
proof -
  have r1: "run_calls [Call_Button BTN_LEFT \<lparr>tv_sec = 5, tv_usec = 999\<rparr>] ButtonProcess_init
      = Inr (\<lparr>m_btnPre = BTN_LEFT, m_tv_cur = \<lparr>tv_sec = 5, tv_usec = 999\<rparr>, m_bTimer = True\<rparr>, [])"
    by (simp add: Button_def ButtonProcess_init_def EnableTimer_def)
  have r2: "run_calls [Call_Button BTN_RIGHT \<lparr>tv_sec = 5, tv_usec = 0\<rparr>] ButtonProcess_init
      = Inr (\<lparr>m_btnPre = BTN_RIGHT, m_tv_cur = \<lparr>tv_sec = 5, tv_usec = 0\<rparr>, m_bTimer = True\<rparr>, [])"
    by (simp add: Button_def ButtonProcess_init_def EnableTimer_def)
  show ?thesis
    using r1 r2
      Timer_pending [OF r1, of BTN_LEFT "\<lparr>tv_sec = 5, tv_usec = 300000\<rparr>"]
      Timer_pending [OF r2, of BTN_RIGHT "\<lparr>tv_sec = 5, tv_usec = 299999\<rparr>"]
    by (simp add: clock_value_def ms_of_def)
qed

text \<open>
  C2. While button \<open>B\<close> is pending, \<^verbatim>\<open>Button\<close> called with the same \<open>B\<close> prints exactly one
  line, \<open>z\<close> for the left and \<open>x\<close> for the right button, returns \<^verbatim>\<open>true\<close>, and leaves no
  button pending and the timer off; no single-click line is printed, neither by this call
  nor by a later \<^verbatim>\<open>Timer\<close> on the state it leaves.
\<close>

theorem Button_double_click:
  assumes "m_btnPre s = B" and "B \<noteq> BTN_NULL"
  shows "Button B now s =
           Inr (True, s\<lparr>m_btnPre := BTN_NULL, m_bTimer := False\<rparr>,
                [if B = BTN_LEFT then ''z'' else ''x''])
         \<and> Timer later (s\<lparr>m_btnPre := BTN_NULL, m_bTimer := False\<rparr>)
             = Inr (s\<lparr>m_btnPre := BTN_NULL, m_bTimer := False\<rparr>, [])"
  using assms by (cases B) (simp_all add: Button_def DisableTimer_def Timer_def IsTimerEnable_def)

theorem Button_double_click_witness:
  "Button BTN_RIGHT \<lparr>tv_sec = 7, tv_usec = 50000\<rparr>
     \<lparr>m_btnPre = BTN_RIGHT, m_tv_cur = \<lparr>tv_sec = 7, tv_usec = 0\<rparr>, m_bTimer = True\<rparr>
   = Inr (True, \<lparr>m_btnPre = BTN_NULL, m_tv_cur = \<lparr>tv_sec = 7, tv_usec = 0\<rparr>, m_bTimer = False\<rparr>,
          [''x''])
   \<and> Button BTN_LEFT \<lparr>tv_sec = 7, tv_usec = 50000\<rparr>
     \<lparr>m_btnPre = BTN_LEFT, m_tv_cur = \<lparr>tv_sec = 7, tv_usec = 0\<rparr>, m_bTimer = True\<rparr>
   = Inr (True, \<lparr>m_btnPre = BTN_NULL, m_tv_cur = \<lparr>tv_sec = 7, tv_usec = 0\<rparr>, m_bTimer = False\<rparr>,
          [''z''])"
  using
    Button_double_click [of "\<lparr>m_btnPre = BTN_RIGHT, m_tv_cur = \<lparr>tv_sec = 7, tv_usec = 0\<rparr>,
        m_bTimer = True\<rparr>" BTN_RIGHT "\<lparr>tv_sec = 7, tv_usec = 50000\<rparr>"]
    Button_double_click [of "\<lparr>m_btnPre = BTN_LEFT, m_tv_cur = \<lparr>tv_sec = 7, tv_usec = 0\<rparr>,
        m_bTimer = True\<rparr>" BTN_LEFT "\<lparr>tv_sec = 7, tv_usec = 50000\<rparr>"]
  by simp

text \<open>
  C5. Every state reached from the constructor by calls of \<^verbatim>\<open>Button\<close> and \<^verbatim>\<open>Timer\<close> has the
  timer on only with a button pending, and no button pending only with the timer off.
  Whenever a further call from such a state prints, it prints exactly one of the five
  decision lines (double click \<open>z\<close> or \<open>x\<close>, single click \<open><\<close> or \<open>>\<close>, quit \<open>q\<close>) and
  leaves the two fields at their initial values: no button pending, timer off.
  (\<open>m_tv_cur\<close> keeps the last armed time.)
\<close>

theorem classifier_invariant:
  assumes "run_calls cs ButtonProcess_init = Inr (s, ls)"
  shows "(m_bTimer s \<longrightarrow> m_btnPre s \<noteq> BTN_NULL)
       \<and> (m_btnPre s = BTN_NULL \<longrightarrow> \<not> m_bTimer s)
       \<and> (\<forall>c s' ls'. do_call c s = Inr (s', ls') \<and> ls' \<noteq> [] \<longrightarrow>
             ls' \<in> {[''z''], [''x''], [''<''], [''>''], [''q'']}
             \<and> m_btnPre s' = m_btnPre ButtonProcess_init
             \<and> m_bTimer s' = m_bTimer ButtonProcess_init)"
proof -
  from reachable_inv [OF assms] have inv: "classifier_inv s" .
  have step: "ls' \<in> {[''z''], [''x''], [''<''], [''>''], [''q'']}
      \<and> m_btnPre s' = BTN_NULL \<and> \<not> m_bTimer s'"
    if "do_call c s = Inr (s', ls')" and "ls' \<noteq> []" for c s' ls'
  proof (cases c)
    case (Call_Button b now)
    with that(1) obtain ok where "Button b now s = Inr (ok, s', ls')"
      by (auto split: sum.splits)
    from Button_decision [OF this] that(2) show ?thesis by auto
  next
    case (Call_Timer now)
    with that(1) have "Timer now s = Inr (s', ls')" by simp
    from Timer_decision [OF this] that(2) show ?thesis by auto
  qed
  have init: "m_btnPre ButtonProcess_init = BTN_NULL" "\<not> m_bTimer ButtonProcess_init"
    by (simp_all add: ButtonProcess_init_def)
  from inv have "(m_bTimer s \<longrightarrow> m_btnPre s \<noteq> BTN_NULL)
      \<and> (m_btnPre s = BTN_NULL \<longrightarrow> \<not> m_bTimer s)"
    by (simp add: classifier_inv_def)
  moreover have "\<forall>c s' ls'. do_call c s = Inr (s', ls') \<and> ls' \<noteq> [] \<longrightarrow>
             ls' \<in> {[''z''], [''x''], [''<''], [''>''], [''q'']}
             \<and> m_btnPre s' = m_btnPre ButtonProcess_init
             \<and> m_bTimer s' = m_bTimer ButtonProcess_init"
    using step init by metis
  ultimately show ?thesis by blast
qed

theorem classifier_invariant_witness:
  "run_calls [Call_Button BTN_LEFT \<lparr>tv_sec = 1, tv_usec = 0\<rparr>,
              Call_Timer \<lparr>tv_sec = 1, tv_usec = 100000\<rparr>] ButtonProcess_init
     = Inr (\<lparr>m_btnPre = BTN_LEFT, m_tv_cur = \<lparr>tv_sec = 1, tv_usec = 0\<rparr>, m_bTimer = True\<rparr>, [])
   \<and> do_call (Call_Timer \<lparr>tv_sec = 1, tv_usec = 300000\<rparr>)
       \<lparr>m_btnPre = BTN_LEFT, m_tv_cur = \<lparr>tv_sec = 1, tv_usec = 0\<rparr>, m_bTimer = True\<rparr>
     = Inr (\<lparr>m_btnPre = BTN_NULL, m_tv_cur = \<lparr>tv_sec = 1, tv_usec = 0\<rparr>, m_bTimer = False\<rparr>,
            [''<''])
   \<and> m_btnPre \<lparr>m_btnPre = BTN_NULL, m_tv_cur = \<lparr>tv_sec = 1, tv_usec = 0\<rparr>, m_bTimer = False\<rparr>
     = m_btnPre ButtonProcess_init
   \<and> run_calls [] ButtonProcess_init = Inr (ButtonProcess_init, [])
   \<and> m_btnPre ButtonProcess_init = BTN_NULL
   \<and> \<not> m_bTimer ButtonProcess_init"
proof -
  have r: "run_calls [Call_Button BTN_LEFT \<lparr>tv_sec = 1, tv_usec = 0\<rparr>,
              Call_Timer \<lparr>tv_sec = 1, tv_usec = 100000\<rparr>] ButtonProcess_init
     = Inr (\<lparr>m_btnPre = BTN_LEFT, m_tv_cur = \<lparr>tv_sec = 1, tv_usec = 0\<rparr>, m_bTimer = True\<rparr>, [])"
    by (simp add: Button_def Timer_def ButtonProcess_init_def EnableTimer_def
        IsTimerEnable_def tv_ms_def long_div_def c_div_def)
  have d: "do_call (Call_Timer \<lparr>tv_sec = 1, tv_usec = 300000\<rparr>)
       \<lparr>m_btnPre = BTN_LEFT, m_tv_cur = \<lparr>tv_sec = 1, tv_usec = 0\<rparr>, m_bTimer = True\<rparr>
     = Inr (\<lparr>m_btnPre = BTN_NULL, m_tv_cur = \<lparr>tv_sec = 1, tv_usec = 0\<rparr>, m_bTimer = False\<rparr>,
            [''<''])"
    by (simp add: Timer_def IsTimerEnable_def DisableTimer_def tv_ms_def long_div_def c_div_def)
  from classifier_invariant [OF r] d
  have "m_btnPre \<lparr>m_btnPre = BTN_NULL, m_tv_cur = \<lparr>tv_sec = 1, tv_usec = 0\<rparr>, m_bTimer = False\<rparr>
     = m_btnPre ButtonProcess_init"
    by blast
  moreover have r0: "run_calls [] ButtonProcess_init = Inr (ButtonProcess_init, [])"
    by simp
  moreover have n0: "m_btnPre ButtonProcess_init = BTN_NULL"
    by (simp add: ButtonProcess_init_def)
  moreover from classifier_invariant [OF r0] n0 have "\<not> m_bTimer ButtonProcess_init"
    by blast
  ultimately show ?thesis using r d by blast
qed

text \<open>
  C9. In a state reached from the constructor with no button pending, any number of
  \<^verbatim>\<open>Timer\<close> calls, at any clock values, print nothing, leave the state as it is and fail no
  assertion: the timer is off there, so \<^verbatim>\<open>assert(m_btnPre != BTN_NULL)\<close> is never reached.
\<close>

theorem Timer_idle_noop:
  assumes "run_calls cs ButtonProcess_init = Inr (s, ls)" and "m_btnPre s = BTN_NULL"
  shows "Timer now s = Inr (s, []) \<and> run_calls (map Call_Timer ts) s = Inr (s, [])"
  using reachable_inv [OF assms(1)] assms(2) by (simp add: Timer_idle run_Timer_idle)

theorem Timer_idle_noop_witness:
  "run_calls [Call_Button BTN_LEFT \<lparr>tv_sec = 1, tv_usec = 0\<rparr>,
              Call_Button BTN_LEFT \<lparr>tv_sec = 1, tv_usec = 50000\<rparr>] ButtonProcess_init
     = Inr (\<lparr>m_btnPre = BTN_NULL, m_tv_cur = \<lparr>tv_sec = 1, tv_usec = 0\<rparr>, m_bTimer = False\<rparr>,
            [''z''])
   \<and> run_calls (map Call_Timer [\<lparr>tv_sec = 2, tv_usec = 0\<rparr>, \<lparr>tv_sec = 900, tv_usec = 0\<rparr>])
       \<lparr>m_btnPre = BTN_NULL, m_tv_cur = \<lparr>tv_sec = 1, tv_usec = 0\<rparr>, m_bTimer = False\<rparr>
     = Inr (\<lparr>m_btnPre = BTN_NULL, m_tv_cur = \<lparr>tv_sec = 1, tv_usec = 0\<rparr>, m_bTimer = False\<rparr>, [])"
proof -
  have r: "run_calls [Call_Button BTN_LEFT \<lparr>tv_sec = 1, tv_usec = 0\<rparr>,
              Call_Button BTN_LEFT \<lparr>tv_sec = 1, tv_usec = 50000\<rparr>] ButtonProcess_init
     = Inr (\<lparr>m_btnPre = BTN_NULL, m_tv_cur = \<lparr>tv_sec = 1, tv_usec = 0\<rparr>, m_bTimer = False\<rparr>,
            [''z''])"
    by (simp add: Button_def ButtonProcess_init_def EnableTimer_def DisableTimer_def)
  have h: "m_btnPre \<lparr>m_btnPre = BTN_NULL, m_tv_cur = \<lparr>tv_sec = 1, tv_usec = 0\<rparr>,
      m_bTimer = False\<rparr> = BTN_NULL"
    by simp
  from Timer_idle_noop [OF r h, of "\<lparr>tv_sec = 2, tv_usec = 0\<rparr>"
      "[\<lparr>tv_sec = 2, tv_usec = 0\<rparr>, \<lparr>tv_sec = 900, tv_usec = 0\<rparr>]"]
  have "run_calls (map Call_Timer [\<lparr>tv_sec = 2, tv_usec = 0\<rparr>, \<lparr>tv_sec = 900, tv_usec = 0\<rparr>])
       \<lparr>m_btnPre = BTN_NULL, m_tv_cur = \<lparr>tv_sec = 1, tv_usec = 0\<rparr>, m_bTimer = False\<rparr>
     = Inr (\<lparr>m_btnPre = BTN_NULL, m_tv_cur = \<lparr>tv_sec = 1, tv_usec = 0\<rparr>, m_bTimer = False\<rparr>, [])"
    by (rule conjunct2)
  with r show ?thesis by (rule conjI)
qed

section \<open>Dispatch of reports: C3, C4, C6, C10\<close>

text \<open>
  C3. While button \<open>B1\<close> is pending, \<^verbatim>\<open>Button\<close> called with the other button \<open>B2\<close> prints, at
  any clock value, exactly the line \<open>q\<close>, returns \<^verbatim>\<open>false\<close> and leaves no button pending and
  the timer off. A full-size report that presses \<open>B2\<close> therefore makes \<^verbatim>\<open>main\<close> close the
  descriptor and return 0: the rest of that turn's input and all later turns are not
  looked at.
\<close>

theorem quit_gesture:
  assumes "m_btnPre (btnProcess w) = B1" and "B1 \<noteq> BTN_NULL"
    and "B2 \<noteq> BTN_NULL" and "B2 \<noteq> B1"
    and "nLen r = sizeof_data" and "press_of (data r) B2"
    and "\<not> sel_ret it < 0" and "sel_isset it" and "reads it = (r, now) # rs"
  shows "Button B2 now (btnProcess w) =
           Inr (False, (btnProcess w)\<lparr>m_btnPre := BTN_NULL, m_bTimer := False\<rparr>, [''q''])
       \<and> main_dispatch (data r) now w =
           (Return 0, w\<lparr>btnProcess := (btnProcess w)\<lparr>m_btnPre := BTN_NULL, m_bTimer := False\<rparr>,
                        stdout := stdout w @ [''q''], mice_fd_open := False\<rparr>)
       \<and> main_loop (it # its) w =
           (Return 0, w\<lparr>btnProcess := (btnProcess w)\<lparr>m_btnPre := BTN_NULL, m_bTimer := False\<rparr>,
                        stdout := stdout w @ [''q''], mice_fd_open := False\<rparr>)"
proof -
  note q = assms(1-4)
  have d: "main_dispatch (data r) now w =
      (Return 0, w\<lparr>btnProcess := (btnProcess w)\<lparr>m_btnPre := BTN_NULL, m_bTimer := False\<rparr>,
                   stdout := stdout w @ [''q''], mice_fd_open := False\<rparr>)"
    by (simp only: main_dispatch_press [OF assms(6)] main_button_quit [OF q])
  have "drain (reads it) w = main_dispatch (data r) now w"
    by (simp add: assms(9) drain_full [OF assms(5)] d)
  with d have "drain (reads it) w =
      (Return 0, w\<lparr>btnProcess := (btnProcess w)\<lparr>m_btnPre := BTN_NULL, m_bTimer := False\<rparr>,
                   stdout := stdout w @ [''q''], mice_fd_open := False\<rparr>)"
    by simp
  from main_loop_exit [OF assms(7,8) this] d Button_quit [OF q] show ?thesis by simp
qed

theorem quit_gesture_witness:
  "press_of (report False True False 0 0 0) BTN_RIGHT
   \<and> main_loop
       [\<lparr>sel_ret = 1, sel_isset = True,
         reads = [(full_read (report False True False 0 0 0), tv 10 1000),
                  (eagain_read, tv 10 1000)],
         timer_now = tv 10 2000\<rparr>]
       \<lparr>btnProcess = \<lparr>m_btnPre = BTN_LEFT, m_tv_cur = tv 10 0, m_bTimer = True\<rparr>,
        stdout = [], mice_fd_open = True\<rparr>
     = (Return 0,
        \<lparr>btnProcess = \<lparr>m_btnPre = BTN_NULL, m_tv_cur = tv 10 0, m_bTimer = False\<rparr>,
         stdout = [''q''], mice_fd_open = False\<rparr>)"
  using quit_gesture [of
      "\<lparr>btnProcess = \<lparr>m_btnPre = BTN_LEFT, m_tv_cur = tv 10 0, m_bTimer = True\<rparr>,
        stdout = [], mice_fd_open = True\<rparr>"
      BTN_LEFT BTN_RIGHT "full_read (report False True False 0 0 0)"
      "\<lparr>sel_ret = 1, sel_isset = True,
         reads = [(full_read (report False True False 0 0 0), tv 10 1000),
                  (eagain_read, tv 10 1000)],
         timer_now = tv 10 2000\<rparr>"
      "tv 10 1000" "[(eagain_read, tv 10 1000)]" "[]"]
  by (simp add: press_of_def sizeof_data_def)

text \<open>
  C4, amended. For every full-size report in which all three offsets \<open>z\<close>, \<open>x\<close> and \<open>y\<close>
  are zero, the dispatch follows the priority left, right, middle: with the left bit set
  \<^verbatim>\<open>Button(BTN_LEFT)\<close> is called, otherwise with the right bit set \<^verbatim>\<open>Button(BTN_RIGHT)\<close>,
  otherwise with the middle bit set the line \<open>p\<close> is printed, otherwise nothing happens.
  A call of \<^verbatim>\<open>Button\<close> from here fails no assertion; its state and lines become those of
  \<^verbatim>\<open>main\<close>, which returns 0 with the descriptor closed exactly when \<^verbatim>\<open>Button\<close> returns
  \<^verbatim>\<open>false\<close>.
\<close>

theorem button_priority:
  assumes "data_z d = 0" and "data_x d = 0" and "data_y d = 0"
  shows "main_dispatch d now w =
           (if btn_left d then main_button BTN_LEFT now w
            else if btn_right d then main_button BTN_RIGHT now w
            else if btn_middle d then (Continue, w\<lparr>stdout := stdout w @ [''p'']\<rparr>)
            else (Continue, w))
       \<and> (\<forall>b. b \<noteq> BTN_NULL \<longrightarrow>
            (\<exists>ok s' ls. Button b now (btnProcess w) = Inr (ok, s', ls)
               \<and> main_button b now w =
                   (if ok then Continue else Return 0,
                    w\<lparr>btnProcess := s', stdout := stdout w @ ls,
                      mice_fd_open := (ok \<and> mice_fd_open w)\<rparr>)))"
  using assms main_button_Button [of _ now w] by (simp add: main_dispatch_def)

theorem button_priority_witness:
  "data_z (report True True True 0 0 0) = 0
   \<and> main_dispatch (report True True True 0 0 0) (tv 10 0) world0
       = main_button BTN_LEFT (tv 10 0) world0
   \<and> main_dispatch (report False True True 0 0 0) (tv 10 0) world0
       = main_button BTN_RIGHT (tv 10 0) world0
   \<and> main_dispatch (report False False True 0 0 0) (tv 10 0) world0
       = (Continue, \<lparr>btnProcess = ButtonProcess_init, stdout = [''p''], mice_fd_open = True\<rparr>)
   \<and> main_dispatch (report False False False 0 0 0) (tv 10 0) world0 = (Continue, world0)"
  using button_priority [of "report True True True 0 0 0" "tv 10 0" world0]
    button_priority [of "report False True True 0 0 0" "tv 10 0" world0]
    button_priority [of "report False False True 0 0 0" "tv 10 0" world0]
    button_priority [of "report False False False 0 0 0" "tv 10 0" world0]
  by simp

text \<open>
  C4 as stated, for every report with \<open>z = 0\<close>, fails: the report with the left bit set,
  \<open>z = 0\<close> and \<open>x = 1\<close> changes nothing, whereas passing left to the classifier would
  arm the timer with left pending.
\<close>

theorem button_priority_counterexample:
  "data_z (report True False False 1 0 0) = 0
   \<and> btn_left (report True False False 1 0 0)
   \<and> main_dispatch (report True False False 1 0 0) (tv 10 0) world0 = (Continue, world0)
   \<and> main_button BTN_LEFT (tv 10 0) world0 =
       (Continue,
        \<lparr>btnProcess = \<lparr>m_btnPre = BTN_LEFT, m_tv_cur = tv 10 0, m_bTimer = True\<rparr>,
         stdout = [], mice_fd_open = True\<rparr>)
   \<and> main_dispatch (report True False False 1 0 0) (tv 10 0) world0
       \<noteq> main_button BTN_LEFT (tv 10 0) world0"
  by (simp add: main_dispatch_def main_button_def Button_def ButtonProcess_init_def
      EnableTimer_def)

text \<open>
  C6. A full-size report with no button bit set and a wheel offset \<open>z\<close> other than zero
  prints exactly one line: \<open>9\<close> when \<open>z > 0\<close>, \<open>0\<close> when \<open>z < 0\<close>; one of the two holds.
\<close>

theorem wheel_output:
  assumes "\<not> btn_left d" and "\<not> btn_right d" and "\<not> btn_middle d" and "data_z d \<noteq> 0"
  shows "(sint (data_z d) > 0 \<longrightarrow>
            main_dispatch d now w = (Continue, w\<lparr>stdout := stdout w @ [''9'']\<rparr>))
       \<and> (sint (data_z d) < 0 \<longrightarrow>
            main_dispatch d now w = (Continue, w\<lparr>stdout := stdout w @ [''0'']\<rparr>))
       \<and> (sint (data_z d) > 0 \<or> sint (data_z d) < 0)"
proof -
  from assms(4) have "sint (data_z d) \<noteq> 0" by (simp add: signed_eq_0_iff)
  then show ?thesis using assms(4) by (auto simp: main_dispatch_wheel)
qed

theorem wheel_output_witness:
  "sint (data_z (report False False False 0 0 1)) > 0
   \<and> main_dispatch (report False False False 0 0 1) (tv 10 0) world0
       = (Continue, \<lparr>btnProcess = ButtonProcess_init, stdout = [''9''], mice_fd_open = True\<rparr>)
   \<and> sint (data_z (report False False False 0 0 255)) < 0
   \<and> main_dispatch (report False False False 0 0 255) (tv 10 0) world0
       = (Continue, \<lparr>btnProcess = ButtonProcess_init, stdout = [''0''], mice_fd_open = True\<rparr>)"
  using wheel_output [of "report False False False 0 0 1" "tv 10 0" world0]
    wheel_output [of "report False False False 0 0 255" "tv 10 0" world0]
  by simp

text \<open>
  C10. A full-size report with \<open>z = 0\<close> and \<open>x\<close> or \<open>y\<close> other than zero prints nothing and
  leaves the whole state of \<^verbatim>\<open>main\<close>, the classifier included, as it is, whatever its button
  bits are; the drain goes on with the next answer of \<^verbatim>\<open>read\<close>.
\<close>

theorem motion_ignored:
  assumes "data_z d = 0" and "data_x d \<noteq> 0 \<or> data_y d \<noteq> 0"
  shows "main_dispatch d now w = (Continue, w)
       \<and> (nLen r = sizeof_data \<and> data r = d \<longrightarrow> drain ((r, now) # rs) w = drain rs w)"
  using main_dispatch_motion [OF assms] by (auto simp: drain_full)

theorem motion_ignored_witness:
  "data_z (report True False False 3 0 0) = 0
   \<and> main_dispatch (report True False False 3 0 0) (tv 10 0) world0 = (Continue, world0)
   \<and> drain [(full_read (report True False False 3 0 0), tv 10 0), (eagain_read, tv 10 0)] world0
       = drain [(eagain_read, tv 10 0)] world0"
  using motion_ignored [of "report True False False 3 0 0" "tv 10 0" world0
      "full_read (report True False False 3 0 0)" "[(eagain_read, tv 10 0)]"]
  by (simp add: sizeof_data_def)

section \<open>Whole runs: C7, C8\<close>

text \<open>
  Two presses of the same button with wheel reports between them: both presses in one
  drain, and the presses in different turns of the loop.
\<close>

lemma press_wheels_press_drain:
  assumes "B \<noteq> BTN_NULL" and "m_btnPre (btnProcess w) = BTN_NULL"
    and "nLen p0 = sizeof_data" and "press_of (data p0) B"
    and "nLen p1 = sizeof_data" and "press_of (data p1) B"
    and "list_all wheel_read ws0"
  shows "drain ((p0, t0) # ws0 @ (p1, t1) # rs) w =
     drain rs
       (w\<lparr>btnProcess :=
            (btnProcess w)\<lparr>m_btnPre := BTN_NULL, m_tv_cur := t0, m_bTimer := False\<rparr>,
          stdout := stdout w @ map wheel_line ws0 @ [if B = BTN_LEFT then ''z'' else ''x'']\<rparr>)"
proof -
  define s1 where "s1 = (btnProcess w)\<lparr>m_btnPre := B, m_bTimer := True, m_tv_cur := t0\<rparr>"
  define w1 where "w1 = w\<lparr>btnProcess := s1\<rparr>"
  define w2 where "w2 = w1\<lparr>stdout := stdout w1 @ map wheel_line ws0\<rparr>"
  have "main_dispatch (data p0) t0 w = (Continue, w1)"
    by (simp add: main_dispatch_press [OF assms(4)] main_button_first [OF assms(2,1)]
        w1_def s1_def)
  then have "drain ((p0, t0) # ws0 @ (p1, t1) # rs) w = drain (ws0 @ (p1, t1) # rs) w1"
    by (simp add: drain_full [OF assms(3)])
  also have "\<dots> = drain ((p1, t1) # rs) w2"
    unfolding w2_def by (rule drain_wheels [OF assms(7)])
  finally have d: "drain ((p0, t0) # ws0 @ (p1, t1) # rs) w = drain ((p1, t1) # rs) w2" .
  have pend: "m_btnPre (btnProcess w2) = B"
    by (simp add: w2_def w1_def s1_def)
  define w3 where
    "w3 = w2\<lparr>btnProcess := (btnProcess w2)\<lparr>m_btnPre := BTN_NULL, m_bTimer := False\<rparr>,
             stdout := stdout w2 @ [if B = BTN_LEFT then ''z'' else ''x'']\<rparr>"
  have "drain ((p1, t1) # rs) w2 = drain rs w3"
    by (simp add: drain_full [OF assms(5)] main_dispatch_press [OF assms(6)]
        main_button_same [OF pend assms(1)] w3_def)
  with d have "drain ((p0, t0) # ws0 @ (p1, t1) # rs) w = drain rs w3"
    by simp
  moreover have "w3 = w\<lparr>btnProcess :=
            (btnProcess w)\<lparr>m_btnPre := BTN_NULL, m_tv_cur := t0, m_bTimer := False\<rparr>,
          stdout := stdout w @ map wheel_line ws0 @ [if B = BTN_LEFT then ''z'' else ''x'']\<rparr>"
    by (simp add: w3_def w2_def w1_def s1_def)
  ultimately show ?thesis by simp
qed

lemma press_turns_press:
  assumes "B \<noteq> BTN_NULL" and "m_btnPre (btnProcess w) = BTN_NULL"
    and "nLen p0 = sizeof_data" and "press_of (data p0) B"
    and "nLen p1 = sizeof_data" and "press_of (data p1) B"
    and "list_all wheel_read ws0"
    and "\<not> sel_ret first < 0" and "sel_isset first"
    and "reads first = (p0, t0) # ws0 @ (e, u) # ign" and "would_block e"
    and "clock_value t0" and "clock_value (timer_now first)"
    and "ms_of (timer_now first) - ms_of t0 < 300"
    and "list_all (wheel_turn t0) its"
    and "\<not> sel_ret final < 0" and "sel_isset final"
    and "reads final = ws1 @ (p1, t1) # rs" and "list_all wheel_read ws1"
  shows "main_loop (first # its @ final # rest) w =
     main_loop (final\<lparr>reads := rs\<rparr> # rest)
       (w\<lparr>btnProcess :=
            (btnProcess w)\<lparr>m_btnPre := BTN_NULL, m_tv_cur := t0, m_bTimer := False\<rparr>,
          stdout := stdout w @ map wheel_line ws0 @ concat (map turn_lines its)
            @ map wheel_line ws1 @ [if B = BTN_LEFT then ''z'' else ''x'']\<rparr>)"
proof -
  define s1 where "s1 = (btnProcess w)\<lparr>m_btnPre := B, m_bTimer := True, m_tv_cur := t0\<rparr>"
  define w1 where "w1 = w\<lparr>btnProcess := s1\<rparr>"
  define w2 where "w2 = w1\<lparr>stdout := stdout w1 @ map wheel_line ws0\<rparr>"
  define w3 where "w3 = w2\<lparr>stdout := stdout w2 @ concat (map turn_lines its)\<rparr>"
  define w4 where "w4 = w3\<lparr>stdout := stdout w3 @ map wheel_line ws1\<rparr>"
  define w5 where "w5 = w4\<lparr>btnProcess := (btnProcess w4)\<lparr>m_btnPre := BTN_NULL, m_bTimer := False\<rparr>,
      stdout := stdout w4 @ [if B = BTN_LEFT then ''z'' else ''x'']\<rparr>"
  \<comment> \<open>the first press arms the timer; the rest of its turn\<close>
  have "main_dispatch (data p0) t0 w = (Continue, w1)"
    by (simp add: main_dispatch_press [OF assms(4)] main_button_first [OF assms(2,1)]
        w1_def s1_def)
  then have "drain (reads first) w = drain (ws0 @ (e, u) # ign) w1"
    by (simp add: assms(10) drain_full [OF assms(3)])
  also have "\<dots> = drain ((e, u) # ign) w2"
    unfolding w2_def by (rule drain_wheels [OF assms(7)])
  also have "\<dots> = (Continue, w2)"
    by (rule drain_would_block [OF assms(11)])
  finally have d1: "drain (reads first) w = (Continue, w2)" .
  have b2: "btnProcess w2 = s1" by (simp add: w2_def w1_def)
  have armed: "m_tv_cur (btnProcess w2) = t0" by (simp add: b2 s1_def)
  have "Timer (timer_now first) (btnProcess w2) = Inr (btnProcess w2, [])"
    using assms(12,13,14) by (simp add: armed Timer_early)
  from main_loop_drained [OF assms(8,9) d1 this]
  have step1: "main_loop (first # its @ final # rest) w = main_loop (its @ final # rest) w2"
    by simp
  \<comment> \<open>the turns that carry wheel reports only\<close>
  from assms(15) armed have "list_all (wheel_turn (m_tv_cur (btnProcess w2))) its" by simp
  moreover from assms(12) armed have "clock_value (m_tv_cur (btnProcess w2))" by simp
  ultimately have step2: "main_loop (its @ final # rest) w2 = main_loop (final # rest) w3"
    unfolding w3_def by (rule wheel_turns)
  \<comment> \<open>the second press\<close>
  have pend: "m_btnPre (btnProcess w4) = B" by (simp add: w4_def w3_def b2 s1_def)
  have "drain (reads final) w3 = drain ((p1, t1) # rs) w4"
    unfolding w4_def by (simp add: assms(18) drain_wheels [OF assms(19)])
  also have "\<dots> = drain rs w5"
    by (simp add: drain_full [OF assms(5)] main_dispatch_press [OF assms(6)]
        main_button_same [OF pend assms(1)] w5_def)
  finally have "drain (reads final) w3 = drain rs w5" .
  from main_loop_consumed [OF assms(16,17) this]
  have step3: "main_loop (final # rest) w3 = main_loop (final\<lparr>reads := rs\<rparr> # rest) w5" .
  have "w5 = w\<lparr>btnProcess :=
                   (btnProcess w)\<lparr>m_btnPre := BTN_NULL, m_tv_cur := t0, m_bTimer := False\<rparr>,
                 stdout := stdout w @ map wheel_line ws0 @ concat (map turn_lines its)
                   @ map wheel_line ws1 @ [if B = BTN_LEFT then ''z'' else ''x'']\<rparr>"
    by (simp add: w5_def w4_def w3_def w2_def w1_def s1_def)
  with step1 step2 step3 show ?thesis by simp
qed

text \<open>
  C7. A report with a wheel offset other than zero leaves the classifier as it is. So
  let no button be pending and let a press of \<open>B\<close> be read at clock value \<open>t0\<close>, followed
  by wheel reports only until \<open>B\<close> is pressed again (by the same or another report that
  presses \<open>B\<close>). If both presses are read in one drain, the output is the wheel lines in
  order followed by the double-click line of \<open>B\<close>, \<open>z\<close> or \<open>x\<close>, no button is pending
  afterwards, and the drain goes on with the reads that remain; no \<^verbatim>\<open>Timer\<close> runs in
  between. If the presses are read in different turns, with any number of turns between
  them that read wheel reports only, and every \<^verbatim>\<open>Timer\<close> in between reads a clock value
  whose millisecond reading is less than 300 above that of the clock value \<open>t0\<close>, the
  output is again the wheel lines in order followed by the double-click line, no button is
  pending afterwards, and the last turn goes on with the reads that remain.
\<close>

theorem wheel_frame:
  assumes "B \<noteq> BTN_NULL" and "m_btnPre (btnProcess w) = BTN_NULL"
    and "nLen p0 = sizeof_data" and "press_of (data p0) B"
    and "nLen p1 = sizeof_data" and "press_of (data p1) B"
    and "list_all wheel_read ws0"
  shows "(data_z d \<noteq> 0 \<longrightarrow>
            fst (main_dispatch d now w') = Continue
            \<and> btnProcess (snd (main_dispatch d now w')) = btnProcess w')
       \<and> drain ((p0, t0) # ws0 @ (p1, t1) # rs) w =
           drain rs
             (w\<lparr>btnProcess :=
                  (btnProcess w)\<lparr>m_btnPre := BTN_NULL, m_tv_cur := t0, m_bTimer := False\<rparr>,
                stdout := stdout w @ map wheel_line ws0
                  @ [if B = BTN_LEFT then ''z'' else ''x'']\<rparr>)
       \<and> (\<not> sel_ret turn < 0 \<and> sel_isset turn
            \<and> reads turn = (p0, t0) # ws0 @ (p1, t1) # rs \<longrightarrow>
           main_loop (turn # rest) w =
             main_loop (turn\<lparr>reads := rs\<rparr> # rest)
               (w\<lparr>btnProcess :=
                    (btnProcess w)\<lparr>m_btnPre := BTN_NULL, m_tv_cur := t0, m_bTimer := False\<rparr>,
                  stdout := stdout w @ map wheel_line ws0
                    @ [if B = BTN_LEFT then ''z'' else ''x'']\<rparr>))
       \<and> (\<not> sel_ret first < 0 \<and> sel_isset first
            \<and> reads first = (p0, t0) # ws0 @ (e, u) # ign \<and> would_block e
            \<and> clock_value t0 \<and> clock_value (timer_now first)
            \<and> ms_of (timer_now first) - ms_of t0 < 300
            \<and> list_all (wheel_turn t0) its
            \<and> \<not> sel_ret final < 0 \<and> sel_isset final
            \<and> reads final = ws1 @ (p1, t1) # rs \<and> list_all wheel_read ws1 \<longrightarrow>
           main_loop (first # its @ final # rest) w =
             main_loop (final\<lparr>reads := rs\<rparr> # rest)
               (w\<lparr>btnProcess :=
                    (btnProcess w)\<lparr>m_btnPre := BTN_NULL, m_tv_cur := t0, m_bTimer := False\<rparr>,
                  stdout := stdout w @ map wheel_line ws0 @ concat (map turn_lines its)
                    @ map wheel_line ws1 @ [if B = BTN_LEFT then ''z'' else ''x'']\<rparr>))"
proof (intro conjI impI)
  assume "data_z d \<noteq> 0"
  then show "fst (main_dispatch d now w') = Continue"
    and "btnProcess (snd (main_dispatch d now w')) = btnProcess w'"
    by (simp_all add: main_dispatch_wheel)
next
  show "drain ((p0, t0) # ws0 @ (p1, t1) # rs) w =
           drain rs
             (w\<lparr>btnProcess :=
                  (btnProcess w)\<lparr>m_btnPre := BTN_NULL, m_tv_cur := t0, m_bTimer := False\<rparr>,
                stdout := stdout w @ map wheel_line ws0
                  @ [if B = BTN_LEFT then ''z'' else ''x'']\<rparr>)"
    by (rule press_wheels_press_drain [OF assms])
next
  assume h: "\<not> sel_ret turn < 0 \<and> sel_isset turn
            \<and> reads turn = (p0, t0) # ws0 @ (p1, t1) # rs"
  from press_wheels_press_drain [OF assms, of t0 t1 rs] h
  have "drain (reads turn) w =
           drain rs
             (w\<lparr>btnProcess :=
                  (btnProcess w)\<lparr>m_btnPre := BTN_NULL, m_tv_cur := t0, m_bTimer := False\<rparr>,
                stdout := stdout w @ map wheel_line ws0
                  @ [if B = BTN_LEFT then ''z'' else ''x'']\<rparr>)"
    by simp
  moreover from h have "\<not> sel_ret turn < 0" and "sel_isset turn"
    by simp_all
  ultimately show "main_loop (turn # rest) w =
             main_loop (turn\<lparr>reads := rs\<rparr> # rest)
               (w\<lparr>btnProcess :=
                    (btnProcess w)\<lparr>m_btnPre := BTN_NULL, m_tv_cur := t0, m_bTimer := False\<rparr>,
                  stdout := stdout w @ map wheel_line ws0
                    @ [if B = BTN_LEFT then ''z'' else ''x'']\<rparr>)"
    by (intro main_loop_consumed)
next
  assume h: "\<not> sel_ret first < 0 \<and> sel_isset first
            \<and> reads first = (p0, t0) # ws0 @ (e, u) # ign \<and> would_block e
            \<and> clock_value t0 \<and> clock_value (timer_now first)
            \<and> ms_of (timer_now first) - ms_of t0 < 300
            \<and> list_all (wheel_turn t0) its
            \<and> \<not> sel_ret final < 0 \<and> sel_isset final
            \<and> reads final = ws1 @ (p1, t1) # rs \<and> list_all wheel_read ws1"
  then have f: "\<not> sel_ret first < 0" "sel_isset first"
    "reads first = (p0, t0) # ws0 @ (e, u) # ign" "would_block e"
    "clock_value t0" "clock_value (timer_now first)"
    "ms_of (timer_now first) - ms_of t0 < 300"
    "list_all (wheel_turn t0) its"
    "\<not> sel_ret final < 0" "sel_isset final"
    "reads final = ws1 @ (p1, t1) # rs" "list_all wheel_read ws1"
    by simp_all
  show "main_loop (first # its @ final # rest) w =
             main_loop (final\<lparr>reads := rs\<rparr> # rest)
               (w\<lparr>btnProcess :=
                    (btnProcess w)\<lparr>m_btnPre := BTN_NULL, m_tv_cur := t0, m_bTimer := False\<rparr>,
                  stdout := stdout w @ map wheel_line ws0 @ concat (map turn_lines its)
                    @ map wheel_line ws1 @ [if B = BTN_LEFT then ''z'' else ''x'']\<rparr>)"
    by (rule press_turns_press [OF assms f])
qed

text \<open>
  In one drain: press left, wheel down, press left prints \<open>9\<close>, \<open>z\<close>. Over four turns, with
  \<^verbatim>\<open>Timer\<close> reading 20, 40 and 60 ms after the first press: \<open>9\<close>, \<open>0\<close>, \<open>9\<close>, \<open>z\<close>.
\<close>

theorem wheel_frame_witness:
  "data_z (report False False False 0 0 1) \<noteq> 0
   \<and> btnProcess (snd (main_dispatch (report False False False 0 0 1) (tv 10 0) world0))
       = btnProcess world0
   \<and> drain [(full_read (report True False False 0 0 0), tv 10 0),
            (full_read (report False False False 0 0 1), tv 10 5000),
            (full_read (report True False True 0 0 0), tv 10 80000),
            (eagain_read, tv 10 81000)] world0
     = (Continue,
        \<lparr>btnProcess = \<lparr>m_btnPre = BTN_NULL, m_tv_cur = tv 10 0, m_bTimer = False\<rparr>,
         stdout = [''9'', ''z''], mice_fd_open = True\<rparr>)
   \<and> main_loop
     [\<lparr>sel_ret = 1, sel_isset = True,
       reads = [(full_read (report True False False 0 0 0), tv 10 0),
                (full_read (report False False False 0 0 1), tv 10 5000),
                (full_read (report True False True 0 0 0), tv 10 80000),
                (eagain_read, tv 10 81000)],
       timer_now = tv 10 90000\<rparr>]
     world0
   = (Running,
      \<lparr>btnProcess = \<lparr>m_btnPre = BTN_NULL, m_tv_cur = tv 10 0, m_bTimer = False\<rparr>,
       stdout = [''9'', ''z''], mice_fd_open = True\<rparr>)
   \<and> main_loop
     [\<lparr>sel_ret = 1, sel_isset = True,
       reads = [(full_read (report True False False 0 0 0), tv 10 0),
                (full_read (report False False False 0 0 1), tv 10 5000),
                (eagain_read, tv 10 6000)],
       timer_now = tv 10 20000\<rparr>,
      \<lparr>sel_ret = 0, sel_isset = False, reads = [], timer_now = tv 10 40000\<rparr>,
      \<lparr>sel_ret = 1, sel_isset = True,
       reads = [(full_read (report False False False 0 0 255), tv 10 50000),
                (eagain_read, tv 10 51000)],
       timer_now = tv 10 60000\<rparr>,
      \<lparr>sel_ret = 1, sel_isset = True,
       reads = [(full_read (report False False False 0 0 1), tv 10 70000),
                (full_read (report True False True 0 0 0), tv 10 80000),
                (eagain_read, tv 10 81000)],
       timer_now = tv 10 90000\<rparr>]
     world0
   = (Running,
      \<lparr>btnProcess = \<lparr>m_btnPre = BTN_NULL, m_tv_cur = tv 10 0, m_bTimer = False\<rparr>,
       stdout = [''9'', ''0'', ''9'', ''z''], mice_fd_open = True\<rparr>)"
proof -
  let ?p0 = "full_read (report True False False 0 0 0)"
  let ?p1 = "full_read (report True False True 0 0 0)"
  let ?down = "full_read (report False False False 0 0 1)"
  let ?up = "full_read (report False False False 0 0 255)"
  let ?first = "\<lparr>sel_ret = 1, sel_isset = True,
       reads = [(?p0, tv 10 0), (?down, tv 10 5000), (eagain_read, tv 10 6000)],
       timer_now = tv 10 20000\<rparr>"
  let ?its = "[\<lparr>sel_ret = 0, sel_isset = False, reads = [], timer_now = tv 10 40000\<rparr>,
      \<lparr>sel_ret = 1, sel_isset = True,
       reads = [(?up, tv 10 50000), (eagain_read, tv 10 51000)],
       timer_now = tv 10 60000\<rparr>]"
  let ?final = "\<lparr>sel_ret = 1, sel_isset = True,
       reads = [(?down, tv 10 70000), (?p1, tv 10 80000), (eagain_read, tv 10 81000)],
       timer_now = tv 10 90000\<rparr>"
  let ?same = "\<lparr>sel_ret = 1, sel_isset = True,
       reads = [(?p0, tv 10 0), (?down, tv 10 5000), (?p1, tv 10 80000),
                (eagain_read, tv 10 81000)],
       timer_now = tv 10 90000\<rparr>"
  let ?idle = "\<lparr>m_btnPre = BTN_NULL, m_tv_cur = tv 10 0, m_bTimer = False\<rparr>"
  have hyps: "BTN_LEFT \<noteq> BTN_NULL" "m_btnPre (btnProcess world0) = BTN_NULL"
    "nLen ?p0 = sizeof_data" "press_of (data ?p0) BTN_LEFT"
    "nLen ?p1 = sizeof_data" "press_of (data ?p1) BTN_LEFT"
    "list_all wheel_read [(?down, tv 10 5000)]"
    by (simp_all add: ButtonProcess_init_def sizeof_data_def press_of_def wheel_read_def)
  note wf = wheel_frame [OF hyps, where d = "report False False False 0 0 1"
      and now = "tv 10 0" and w' = world0 and ?t0.0 = "tv 10 0" and ?t1.0 = "tv 10 80000"
      and rs = "[(eagain_read, tv 10 81000)]" and turn = ?same
      and first = ?first and e = eagain_read and u = "tv 10 6000" and ign = "[]"
      and its = ?its and final = ?final and ?ws1.0 = "[(?down, tv 10 70000)]" and rest = "[]"]
  have tail1: "drain [(eagain_read, tv 10 81000)]
      \<lparr>btnProcess = ?idle, stdout = [''9'', ''z''], mice_fd_open = True\<rparr>
      = (Continue, \<lparr>btnProcess = ?idle, stdout = [''9'', ''z''], mice_fd_open = True\<rparr>)"
    by (simp add: drain_would_block would_block_def EAGAIN_def)
  have tail2: "main_loop [\<lparr>sel_ret = 1, sel_isset = True,
        reads = [(eagain_read, tv 10 81000)], timer_now = tv 10 90000\<rparr>]
      \<lparr>btnProcess = ?idle, stdout = [''9'', ''0'', ''9'', ''z''], mice_fd_open = True\<rparr>
      = (Running, \<lparr>btnProcess = ?idle, stdout = [''9'', ''0'', ''9'', ''z''],
           mice_fd_open = True\<rparr>)"
    by (simp add: main_loop.simps(2) drain_would_block would_block_def EAGAIN_def Timer_off)
  have tail3: "main_loop [\<lparr>sel_ret = 1, sel_isset = True,
        reads = [(eagain_read, tv 10 81000)], timer_now = tv 10 90000\<rparr>]
      \<lparr>btnProcess = ?idle, stdout = [''9'', ''z''], mice_fd_open = True\<rparr>
      = (Running, \<lparr>btnProcess = ?idle, stdout = [''9'', ''z''], mice_fd_open = True\<rparr>)"
    by (simp add: main_loop.simps(2) drain_would_block would_block_def EAGAIN_def Timer_off)
  from wf have c1: "btnProcess (snd (main_dispatch (report False False False 0 0 1) (tv 10 0) world0))
       = btnProcess world0"
    by simp
  from wf tail1 have c2: "drain [(?p0, tv 10 0), (?down, tv 10 5000), (?p1, tv 10 80000),
            (eagain_read, tv 10 81000)] world0
     = (Continue, \<lparr>btnProcess = ?idle, stdout = [''9'', ''z''], mice_fd_open = True\<rparr>)"
    by (simp add: ButtonProcess_init_def wheel_line_def)
  from wf tail2 have c3: "main_loop (?first # ?its @ [?final]) world0
     = (Running, \<lparr>btnProcess = ?idle, stdout = [''9'', ''0'', ''9'', ''z''],
           mice_fd_open = True\<rparr>)"
    by (simp add: ButtonProcess_init_def wheel_line_def turn_lines_def wheel_turn_def
        wheel_read_def would_block_def EAGAIN_def sizeof_data_def clock_value_def ms_of_def)
  from wf tail3 have c4: "main_loop [?same] world0
     = (Running, \<lparr>btnProcess = ?idle, stdout = [''9'', ''z''], mice_fd_open = True\<rparr>)"
    by (simp add: ButtonProcess_init_def wheel_line_def)
  from c1 c2 c3 c4 show ?thesis by simp
qed

text \<open>
  C8. A run of \<^verbatim>\<open>main\<close> returns 0 exactly when it has printed the quit line \<open>q\<close>; it
  returns 0 or 1 or is still in its loop, and fails no assertion. It returns 1 when
  \<^verbatim>\<open>open\<close> fails, when the mode-switch \<^verbatim>\<open>write\<close> fails, when \<^verbatim>\<open>select\<close> fails, when \<^verbatim>\<open>read\<close>
  returns 0, and when \<^verbatim>\<open>read\<close> fails with an \<^verbatim>\<open>errno\<close> other than \<^verbatim>\<open>EAGAIN\<close>; a status
  returned inside the drain is the status of \<^verbatim>\<open>main\<close>. A \<^verbatim>\<open>read\<close> that fails with \<^verbatim>\<open>EAGAIN\<close>
  ends the drain with nothing changed, and the loop goes on with \<^verbatim>\<open>Timer\<close> and the next
  turn.
\<close>

theorem exit_status:
  "((fst (main env) = Return 0) = (''q'' \<in> set (stdout (snd (main env)))))
   \<and> (fst (main env) = Return 0 \<or> fst (main env) = Return 1 \<or> fst (main env) = Running)
   \<and> (open_ret env = -1 \<longrightarrow> fst (main env) = Return 1)
   \<and> (write_ret env < 0 \<longrightarrow> fst (main env) = Return 1)
   \<and> (sel_ret it < 0 \<longrightarrow> main_loop (it # its) w = (Return 1, w))
   \<and> (nLen r = 0 \<longrightarrow> drain ((r, now) # rs) w = (Return 1, w))
   \<and> (nLen r = -1 \<and> errno r \<noteq> EAGAIN \<longrightarrow> drain ((r, now) # rs) w = (Return 1, w))
   \<and> (\<not> sel_ret it < 0 \<and> sel_isset it \<and> drain (reads it) w = (Return n, w') \<longrightarrow>
        main_loop (it # its) w = (Return n, w'))
   \<and> (nLen r = -1 \<and> errno r = EAGAIN \<longrightarrow> drain ((r, now) # rs) w = (Continue, w))
   \<and> (nLen r = -1 \<and> errno r = EAGAIN \<and> classifier_inv (btnProcess w) \<and>
        \<not> sel_ret it < 0 \<and> sel_isset it \<and> reads it = (r, now) # rs \<longrightarrow>
        (\<exists>s' ls. Timer (timer_now it) (btnProcess w) = Inr (s', ls) \<and>
           main_loop (it # its) w = main_loop its (w\<lparr>btnProcess := s', stdout := stdout w @ ls\<rparr>)))"
proof -
  note g = good_exit [OF main_good [of env]]
  have not_cont: "fst (main env) \<noteq> Continue"
    by (rule main_not_Continue)
  have a: "(fst (main env) = Return 0) = (''q'' \<in> set (stdout (snd (main env))))"
    by (rule g(1))
  have b: "fst (main env) = Return 0 \<or> fst (main env) = Return 1 \<or> fst (main env) = Running"
    using g(2) not_cont by blast
  have c: "open_ret env = -1 \<longrightarrow> fst (main env) = Return 1"
    by (simp add: main_def)
  have d: "write_ret env < 0 \<longrightarrow> fst (main env) = Return 1"
    by (simp add: main_def Let_def)
  have e: "nLen r = -1 \<and> errno r = EAGAIN \<longrightarrow> drain ((r, now) # rs) w = (Continue, w)"
    by (simp add: drain_would_block would_block_def)
  have f: "\<exists>s' ls. Timer (timer_now it) (btnProcess w) = Inr (s', ls) \<and>
           main_loop (it # its) w = main_loop its (w\<lparr>btnProcess := s', stdout := stdout w @ ls\<rparr>)"
    if h: "nLen r = -1 \<and> errno r = EAGAIN \<and> classifier_inv (btnProcess w) \<and>
        \<not> sel_ret it < 0 \<and> sel_isset it \<and> reads it = (r, now) # rs"
  proof -
    from h e have dr: "drain (reads it) w = (Continue, w)" by simp
    from h Timer_no_assert obtain s' ls where T: "Timer (timer_now it) (btnProcess w) = Inr (s', ls)"
      by blast
    from h have "\<not> sel_ret it < 0" "sel_isset it" by simp_all
    from main_loop_drained [OF this dr T] T show ?thesis by blast
  qed
  show ?thesis
    using a b c d e f
    by (simp add: main_loop_select_error drain_eof drain_error main_loop_exit)
qed

theorem exit_status_witness:
  "main \<lparr>open_ret = 3, write_ret = 6, iterations =
       [\<lparr>sel_ret = 1, sel_isset = True,
         reads = [(full_read (report True False False 0 0 0), tv 10 0),
                  (full_read (report False True False 0 0 0), tv 10 1000)],
         timer_now = tv 10 2000\<rparr>]\<rparr>
     = (Return 0,
        \<lparr>btnProcess = \<lparr>m_btnPre = BTN_NULL, m_tv_cur = tv 10 0, m_bTimer = False\<rparr>,
         stdout = [''q''], mice_fd_open = False\<rparr>)
   \<and> fst (main \<lparr>open_ret = -1, write_ret = -1, iterations = []\<rparr>) = Return 1
   \<and> fst (main \<lparr>open_ret = 3, write_ret = -1, iterations = []\<rparr>) = Return 1
   \<and> main_loop [\<lparr>sel_ret = -1, sel_isset = False, reads = [], timer_now = tv 10 0\<rparr>] world0
       = (Return 1, world0)
   \<and> drain [(\<lparr>nLen = 0, errno = 0, data = report False False False 0 0 0\<rparr>, tv 10 0)] world0
       = (Return 1, world0)
   \<and> drain [(\<lparr>nLen = -1, errno = 5, data = report False False False 0 0 0\<rparr>, tv 10 0)] world0
       = (Return 1, world0)
   \<and> main_loop
       [\<lparr>sel_ret = 1, sel_isset = True,
         reads = [(\<lparr>nLen = 0, errno = 0, data = report False False False 0 0 0\<rparr>, tv 10 0)],
         timer_now = tv 10 0\<rparr>] world0
       = (Return 1, world0)
   \<and> drain [(eagain_read, tv 10 0)] world0 = (Continue, world0)
   \<and> main_loop
       [\<lparr>sel_ret = 1, sel_isset = True, reads = [(eagain_read, tv 10 0)],
         timer_now = tv 10 0\<rparr>] world0
       = (Running, world0)"
proof -
  let ?quit = "\<lparr>open_ret = 3, write_ret = 6, iterations =
       [\<lparr>sel_ret = 1, sel_isset = True,
         reads = [(full_read (report True False False 0 0 0), tv 10 0),
                  (full_read (report False True False 0 0 0), tv 10 1000)],
         timer_now = tv 10 2000\<rparr>]\<rparr>"
  let ?eof = "\<lparr>nLen = 0, errno = 0, data = report False False False 0 0 0\<rparr>"
  let ?err = "\<lparr>nLen = -1, errno = 5, data = report False False False 0 0 0\<rparr>"
  let ?it_eof = "\<lparr>sel_ret = 1, sel_isset = True, reads = [(?eof, tv 10 0)], timer_now = tv 10 0\<rparr>"
  let ?it_again = "\<lparr>sel_ret = 1, sel_isset = True, reads = [(eagain_read, tv 10 0)],
         timer_now = tv 10 0\<rparr>"
  have q: "main ?quit = (Return 0,
        \<lparr>btnProcess = \<lparr>m_btnPre = BTN_NULL, m_tv_cur = tv 10 0, m_bTimer = False\<rparr>,
         stdout = [''q''], mice_fd_open = False\<rparr>)"
    by (simp add: main_def main_loop.simps(2) drain.simps(2) sizeof_data_def main_dispatch_def
        main_button_def Button_def ButtonProcess_init_def EnableTimer_def DisableTimer_def)
  have inv: "classifier_inv (btnProcess world0)"
    by (simp add: classifier_inv_init)
  have T: "Timer (tv 10 0) (btnProcess world0) = Inr (btnProcess world0, [])"
    by (simp add: Timer_def IsTimerEnable_def ButtonProcess_init_def)
  note e1 = exit_status [of ?quit
      "\<lparr>sel_ret = -1, sel_isset = False, reads = [], timer_now = tv 10 0\<rparr>" "[]" world0
      ?eof "tv 10 0" "[]" 1 world0]
  note e2 = exit_status [of "\<lparr>open_ret = -1, write_ret = -1, iterations = []\<rparr>"
      ?it_eof "[]" world0 ?err "tv 10 0" "[]" 1 world0]
  note e3 = exit_status [of "\<lparr>open_ret = 3, write_ret = -1, iterations = []\<rparr>"
      ?it_again "[]" world0 eagain_read "tv 10 0" "[]" 1 world0]
  from e1 q have c1: "''q'' \<in> set (stdout (snd (main ?quit)))" by simp
  from e2 have c2: "fst (main \<lparr>open_ret = -1, write_ret = -1, iterations = []\<rparr>) = Return 1"
    by simp
  from e3 have c3: "fst (main \<lparr>open_ret = 3, write_ret = -1, iterations = []\<rparr>) = Return 1"
    by simp
  from e1 have c4: "main_loop [\<lparr>sel_ret = -1, sel_isset = False, reads = [], timer_now = tv 10 0\<rparr>]
      world0 = (Return 1, world0)"
    by simp
  from e1 have c5: "drain [(?eof, tv 10 0)] world0 = (Return 1, world0)"
    by simp
  from e2 have c6: "drain [(?err, tv 10 0)] world0 = (Return 1, world0)"
    by (simp add: EAGAIN_def)
  from e2 c5 have c7: "main_loop [?it_eof] world0 = (Return 1, world0)"
    by simp
  from e3 have c8: "drain [(eagain_read, tv 10 0)] world0 = (Continue, world0)"
    by (simp add: EAGAIN_def)
  from e3 inv T have c9: "main_loop [?it_again] world0 = (Running, world0)"
    by (simp add: EAGAIN_def)
  from q c2 c3 c4 c5 c6 c7 c8 c9 show ?thesis by blast
qed

end
